theory Spec2Isabelle
  imports Complex_Main
begin

section \<open>Conventions\<close>

text \<open>
  The wallet backend is JavaScript. A JavaScript number that holds a height, a count, an
  amount or a time is modelled as an \<open>int\<close>; \<open>undefined\<close> is \<open>None\<close> of an option type.
  A thrown exception is the \<open>Inl\<close> branch of a sum (or \<open>None\<close> for a failed HTTP
  attempt). An \<open>async\<close> method that awaits the network is split at the \<open>await\<close>: the part
  that runs before the request is sent, and the part that runs once the answer is there.
  What the remote node answers is an input of the model, and an answer that arrives is
  taken to have the shape the code expects of it. Logging, the HTTP agents and the
  dead-node timers (which only read the clock and emit \<open>deadnode\<close>) are left out: no
  field modelled here depends on them. A string is a \<open>string\<close>; its length is the number
  of its characters, as \<open>.length\<close> is the number of code units.
\<close>

datatype jserror = AssertError | DeserializeError

section \<open>Blocks and the synchronization status\<close>

text \<open>
  Of a block only the fields the synchronizer itself reads are kept (\<open>Types.Block\<close>:
  \<open>blockHeight\<close>, \<open>blockHash\<close>, \<open>blockTimestamp\<close>); its transactions are scanned
  elsewhere.
\<close>

record block =
  blockHeight :: int
  blockHash :: string
  blockTimestamp :: int

text \<open>
  \<open>TopBlock\<close> of \<open>Types\<close>, the JSON object \<open>{height, hash}\<close>; the selectors are
  prefixed because \<open>height\<close> is also a field of the \<open>/info\<close> answer.
\<close>

record topBlock =
  topHeight :: int
  topHash :: string

text \<open>\<open>TopBlock | boolean\<close>, the second component of what \<open>getWalletSyncData\<close> returns.\<close>

datatype syncTop = Top topBlock | Flag bool

section \<open>Daemon\<close>

datatype protocol = Https | Http

datatype daemon_event = Connect | Disconnect | DaemonHeightChange "int option" int

text \<open>
  The fields of class \<open>Daemon\<close> that its methods below read or write.
  \<open>blocksPerDaemonRequest\<close> is \<open>this.config.blocksPerDaemonRequest\<close>.
  \<open>localDaemonBlockCount\<close> is an option because \<open>updateDaemonInfo\<close> stores
  \<open>info.height\<close> even when the answer has none.
\<close>

record daemon =
  ssl :: bool
  sslDetermined :: bool
  localDaemonBlockCount :: "int option"
  networkBlockCount :: int
  peerCount :: int
  lastKnownHashrate :: int
  blockCount :: int
  blocksPerDaemonRequest :: int
  connected :: bool

text \<open>
  The constructor. \<open>isRawIP\<close> is the outcome of the regular-expression test on the host,
  \<open>sslArg\<close> the optional \<open>ssl\<close> argument, \<open>cap\<close> the \<open>blocksPerDaemonRequest\<close> of the
  default \<open>Config\<close> (class \<open>Config\<close> is not among the sources).
\<close>

definition newDaemon :: "bool \<Rightarrow> bool option \<Rightarrow> int \<Rightarrow> daemon" where
  "newDaemon isRawIP sslArg cap =
     (let sslArg' = (if isRawIP \<and> sslArg = None then Some False else sslArg)
      in \<lparr> ssl = (case sslArg' of None \<Rightarrow> True | Some b \<Rightarrow> b),
           sslDetermined = (sslArg' \<noteq> None),
           localDaemonBlockCount = Some 0,
           networkBlockCount = 0,
           peerCount = 0,
           lastKnownHashrate = 0,
           blockCount = 100,
           blocksPerDaemonRequest = cap,
           connected = True \<rparr>)"

text \<open>\<open>updateConfig\<close>: \<open>this.blockCount = this.config.blocksPerDaemonRequest\<close>.\<close>

definition updateConfig :: "int \<Rightarrow> daemon \<Rightarrow> daemon" where
  "updateConfig cap d = d\<lparr>blocksPerDaemonRequest := cap, blockCount := cap\<rparr>"

definition getNetworkBlockCount :: "daemon \<Rightarrow> int" where
  "getNetworkBlockCount d = networkBlockCount d"

definition getLocalDaemonBlockCount :: "daemon \<Rightarrow> int option" where
  "getLocalDaemonBlockCount d = localDaemonBlockCount d"

text \<open>
  The remote node, as one request sees it: for the protocol tried, the answer (body and
  status code), or \<open>None\<close> when the HTTP library throws.
\<close>

type_synonym 'a network = "protocol \<Rightarrow> 'a option"

definition unreachable :: "'a network" where
  "unreachable p = None"

definition answering :: "'a \<Rightarrow> 'a network" where
  "answering body p = Some body"

text \<open>
  \<open>if (!this.connected) { this.emit('connect'); this.connected = true; }\<close> and its
  mirror image in the two \<open>catch\<close> blocks.
\<close>

definition emitConnect :: "daemon \<Rightarrow> daemon_event list \<times> daemon" where
  "emitConnect d = (if \<not> connected d then ([Connect], d\<lparr>connected := True\<rparr>) else ([], d))"

definition emitDisconnect :: "daemon \<Rightarrow> daemon_event list \<times> daemon" where
  "emitDisconnect d = (if connected d then ([Disconnect], d\<lparr>connected := False\<rparr>) else ([], d))"

text \<open>
  \<open>makeRequest\<close>: the answer or \<open>None\<close> (the rethrown error), the events emitted, and the
  daemon afterwards.
\<close>

definition makeRequest :: "'a network \<Rightarrow> daemon \<Rightarrow> 'a option \<times> daemon_event list \<times> daemon" where
  "makeRequest net d =
     (let protocol = (if sslDetermined d then (if ssl d then Https else Http) else Https)
      in case net protocol of
           Some response \<Rightarrow>
             (let d1 = (if \<not> sslDetermined d then d\<lparr>ssl := True, sslDetermined := True\<rparr> else d);
                  (evs, d2) = emitConnect d1
              in (Some response, evs, d2))
         | None \<Rightarrow>
             if sslDetermined d then
               (let (evs, d1) = emitDisconnect d in (None, evs, d1))
             else
               (case net Http of
                  Some response \<Rightarrow>
                    (let d1 = d\<lparr>ssl := False, sslDetermined := True\<rparr>;
                         (evs, d2) = emitConnect d1
                     in (Some response, evs, d2))
                | None \<Rightarrow>
                    (let (evs, d1) = emitDisconnect d in (None, evs, d1))))"

text \<open>
  The body of a \<open>/sync\<close> answer. A block of the answer is \<open>None\<close> when its blob does not
  deserialize (\<open>rawBlocksToBlocks\<close> then throws).
\<close>

record syncData =
  blocks :: "block option list"
  synced :: bool
  topBlock :: "topBlock option"

fun rawBlocksToBlocks :: "block option list \<Rightarrow> jserror + block list" where
  "rawBlocksToBlocks [] = Inr []"
| "rawBlocksToBlocks (None # rest) = Inl DeserializeError"
| "rawBlocksToBlocks (Some b # rest) =
     (case rawBlocksToBlocks rest of Inl e \<Rightarrow> Inl e | Inr bs \<Rightarrow> Inr (b # bs))"

text \<open>\<open>Math.ceil(n / 4)\<close> on an integral \<open>n\<close>.\<close>

definition ceilQuarter :: "int \<Rightarrow> int" where
  "ceilQuarter n = - ((- n) div 4)"

text \<open>
  \<open>getWalletSyncData\<close>. A transport error is caught here: the block count is lowered and
  \<open>[[], false]\<close> is returned. \<open>data.blocks.length >= 0\<close> holds of every array.
\<close>

definition getWalletSyncData ::
  "syncData network \<Rightarrow> daemon \<Rightarrow> (jserror + block list \<times> syncTop) \<times> daemon_event list \<times> daemon" where
  "getWalletSyncData net d =
     (case makeRequest net d of
        (None, evs, d1) \<Rightarrow>
          (Inr ([], Flag False), evs, d1\<lparr>blockCount := ceilQuarter (blockCount d1)\<rparr>)
      | (Some data, evs, d1) \<Rightarrow>
          (let d2 = (if blockCount d1 \<noteq> blocksPerDaemonRequest d1
                     then d1\<lparr>blockCount := min (blocksPerDaemonRequest d1) (blockCount d1 * 2)\<rparr>
                     else d1)
           in case rawBlocksToBlocks (blocks data) of
                Inl e \<Rightarrow> (Inl e, evs, d2)
              | Inr bs \<Rightarrow>
                  (case topBlock data of
                     Some t \<Rightarrow>
                       if synced data \<and> topHeight t \<noteq> 0 \<and> topHash t \<noteq> []
                       then (Inr (bs, Top t), evs, d2)
                       else (Inr (bs, Flag True), evs, d2)
                   | None \<Rightarrow> (Inr (bs, Flag True), evs, d2))))"

text \<open>The body of a \<open>/info\<close> answer.\<close>

record daemonInfo =
  height :: "int option"
  networkHeight :: int
  incomingConnections :: int
  outgoingConnections :: int
  hashrate :: int

text \<open>
  \<open>updateDaemonInfo\<close>. Request number \<open>k\<close> of the call meets the node \<open>nets k\<close>. When the
  answer has no \<open>height\<close> and the protocol had not been determined before the call, the
  method forces HTTP and calls itself once more; the second call finds the protocol
  determined, which is why the recursion ends.
\<close>

function updateDaemonInfo ::
  "(nat \<Rightarrow> daemonInfo network) \<Rightarrow> nat \<Rightarrow> daemon \<Rightarrow> daemon_event list \<times> daemon" where
  "updateDaemonInfo nets k d =
     (let haveDeterminedSsl = sslDetermined d
      in case makeRequest (nets k) d of
           (None, evs, d1) \<Rightarrow> (evs, d1)
         | (Some info, evs, d1) \<Rightarrow>
             if height info = None \<and> \<not> haveDeterminedSsl then
               (let (evs2, d2) = updateDaemonInfo nets (Suc k) (d1\<lparr>sslDetermined := True, ssl := False\<rparr>)
                in (evs @ evs2, d2))
             else
               (let evs2 = (if localDaemonBlockCount d1 \<noteq> height info
                               \<or> networkBlockCount d1 \<noteq> networkHeight info
                            then [DaemonHeightChange (height info) (networkHeight info)] else []);
                    d2 = d1\<lparr>localDaemonBlockCount := height info,
                            networkBlockCount := networkHeight info\<rparr>;
                    d3 = (if networkBlockCount d2 > 0
                          then d2\<lparr>networkBlockCount := networkBlockCount d2 - 1\<rparr> else d2)
                in (evs @ evs2,
                    d3\<lparr>peerCount := incomingConnections info + outgoingConnections info,
                       lastKnownHashrate := hashrate info\<rparr>)))"
  by pat_completeness auto
termination
  by (relation "measure (\<lambda>(nets, k, d). if sslDetermined d then 0 else 1)") auto

declare updateDaemonInfo.simps [simp del]

text \<open>The same node at every request.\<close>

definition everyRequest :: "'a network \<Rightarrow> nat \<Rightarrow> 'a network" where
  "everyRequest net k = net"

text \<open>
  The \<open>/info\<close> answer that a call of \<open>updateDaemonInfo\<close> ends up storing: that of its
  request, or that of the request of the second call when the first answer made the
  method call itself again; \<open>None\<close> when the request that counts failed.
\<close>

definition storedAnswer :: "(nat \<Rightarrow> daemonInfo network) \<Rightarrow> nat \<Rightarrow> daemon \<Rightarrow> daemonInfo option" where
  "storedAnswer nets k d =
     (case makeRequest (nets k) d of
        (None, evs, d1) \<Rightarrow> None
      | (Some info, evs, d1) \<Rightarrow>
          if height info = None \<and> \<not> sslDetermined d
          then fst (makeRequest (nets (Suc k)) (d1\<lparr>sslDetermined := True, ssl := False\<rparr>))
          else Some info)"

text \<open>The body of a \<open>/transaction/status\<close> answer.\<close>

record statusData =
  notFound :: "string list option"

text \<open>\<open>getCancelledTransactions\<close>: \<open>data.notFound || []\<close>, and \<open>[]\<close> when the request fails.\<close>

definition getCancelledTransactions ::
  "statusData network \<Rightarrow> daemon \<Rightarrow> string list \<times> daemon_event list \<times> daemon" where
  "getCancelledTransactions net d =
     (case makeRequest net d of
        (None, evs, d1) \<Rightarrow> ([], evs, d1)
      | (Some data, evs, d1) \<Rightarrow>
          ((case notFound data of None \<Rightarrow> [] | Some hashes \<Rightarrow> hashes), evs, d1))"

text \<open>
  A run of requests, one node behaviour per request: for each request whether it
  succeeded, and the events it emitted.
\<close>

fun makeRequests :: "'a network list \<Rightarrow> daemon \<Rightarrow> (bool \<times> daemon_event list) list" where
  "makeRequests [] d = []"
| "makeRequests (net # nets) d =
     (case makeRequest net d of
        (r, evs, d1) \<Rightarrow> (r \<noteq> None, evs) # makeRequests nets d1)"

section \<open>SynchronizationStatus\<close>

text \<open>
  Only the declaration of class \<open>SynchronizationStatus\<close> is among the sources
  (\<open>SynchronizationStatus.d.ts\<close>): it gives the four private fields, and a constructor
  all of whose parameters are optional.
\<close>

record synchronizationStatus =
  blockHashCheckpoints :: "string list"
  lastKnownBlockHashes :: "string list"
  lastKnownBlockHeight :: int
  lastSavedCheckpointAt :: int

text \<open>
  Modelled from the spec: the bound \<open>K = 100\<close> of the recent hashes; module \<open>Constants\<close>
  is not among the sources.
\<close>

definition LAST_KNOWN_BLOCK_HASHES_SIZE :: nat where
  "LAST_KNOWN_BLOCK_HASHES_SIZE = 100"

text \<open>
  Modelled from the spec: the distance \<open>C = 5000\<close> between two checkpoints; module
  \<open>Constants\<close> is not among the sources.
\<close>

definition BLOCK_HASH_CHECKPOINTS_INTERVAL :: int where
  "BLOCK_HASH_CHECKPOINTS_INTERVAL = 5000"

text \<open>
  Modelled from the spec: the constructor of \<open>SynchronizationStatus\<close> called with the
  height alone, as \<open>reset\<close> and \<open>rewind\<close> call it. The spec: "replace sync status
  (reset: height=scan_height-1, empty history". The body of the constructor with the
  defaults of the parameters left out is missing from the sources.
\<close>

definition newSynchronizationStatus :: "int \<Rightarrow> synchronizationStatus" where
  "newSynchronizationStatus lastKnown =
     \<lparr> blockHashCheckpoints = [], lastKnownBlockHashes = [],
       lastKnownBlockHeight = lastKnown, lastSavedCheckpointAt = 0 \<rparr>"

text \<open>
  Modelled from the spec: \<open>storeBlockHash\<close>, whose body is missing from the sources. The
  spec: an "append-only log of processed (height,hash) with sparse checkpoints + dense
  recent tail", \<open>recent_block_hashes\<close> a "ring-buffer of last K=100", \<open>checkpoints\<close>
  "sparse every C=5000 heights", and after a block is recorded
  \<open>sync_status.height == b.height\<close> and \<open>sync_status.top_hash == b.hash\<close>. Later blocks
  are at the front of both lists, as the daemon wants its checkpoints.
\<close>

definition storeBlockHash :: "int \<Rightarrow> string \<Rightarrow> synchronizationStatus \<Rightarrow> synchronizationStatus" where
  "storeBlockHash bHeight bHash st =
     (let st1 = st\<lparr>lastKnownBlockHeight := bHeight\<rparr>;
          st2 = (if lastSavedCheckpointAt st1 + BLOCK_HASH_CHECKPOINTS_INTERVAL < bHeight
                 then st1\<lparr>lastSavedCheckpointAt := bHeight,
                         blockHashCheckpoints := bHash # blockHashCheckpoints st1\<rparr>
                 else st1)
      in st2\<lparr>lastKnownBlockHashes :=
               take LAST_KNOWN_BLOCK_HASHES_SIZE (bHash # lastKnownBlockHashes st2)\<rparr>)"

section \<open>WalletSynchronizer\<close>

text \<open>
  \<open>finishedFunc\<close> is a closure over the arguments of the \<open>reset\<close> or \<open>rewind\<close> that
  queued it; the datatype keeps which of the two it was and those arguments.
\<close>

datatype finished = ResetLater int int | RewindLater int

datatype synchronizer_event = HeightChange int

text \<open>
  The fields of class \<open>WalletSynchronizer\<close> that the methods below read or write.
  \<open>cancelledTransactionsFailCount\<close> is a JavaScript \<open>Map\<close>, which iterates in insertion
  order: an association list. \<open>blockStoreMemoryLimit\<close> is
  \<open>this.config.blockStoreMemoryLimit\<close>.
\<close>

record walletSynchronizer =
  startTimestamp :: int
  startHeight :: int
  synchronizationStatus :: synchronizationStatus
  fetchingBlocks :: bool
  storedBlocks :: "block list"
  cancelledTransactionsFailCount :: "(string \<times> nat) list"
  finishedFunc :: "finished option"
  blockStoreMemoryLimit :: int

definition newWalletSynchronizer ::
  "int \<Rightarrow> int \<Rightarrow> int \<Rightarrow> synchronizationStatus \<Rightarrow> walletSynchronizer" where
  "newWalletSynchronizer timestamp0 height0 memoryLimit status =
     \<lparr> startTimestamp = timestamp0, startHeight = height0,
       synchronizationStatus = status, fetchingBlocks = False, storedBlocks = [],
       cancelledTransactionsFailCount = [], finishedFunc = None,
       blockStoreMemoryLimit = memoryLimit \<rparr>"

definition getHeight :: "walletSynchronizer \<Rightarrow> int" where
  "getHeight s = lastKnownBlockHeight (synchronizationStatus s)"

text \<open>The function \<open>f\<close> inside \<open>reset\<close>, and the one inside \<open>rewind\<close>.\<close>

definition resetNow :: "int \<Rightarrow> int \<Rightarrow> walletSynchronizer \<Rightarrow> walletSynchronizer" where
  "resetNow scanHeight scanTimestamp s =
     s\<lparr>startHeight := scanHeight, startTimestamp := scanTimestamp,
       synchronizationStatus := newSynchronizationStatus (scanHeight - 1),
       storedBlocks := []\<rparr>"

definition rewindNow :: "int \<Rightarrow> walletSynchronizer \<Rightarrow> walletSynchronizer" where
  "rewindNow scanHeight s =
     s\<lparr>startHeight := scanHeight, startTimestamp := 0,
       synchronizationStatus := newSynchronizationStatus (scanHeight - 1),
       storedBlocks := []\<rparr>"

text \<open>
  \<open>reset\<close> and \<open>rewind\<close>: the boolean tells whether the promise is resolved on return.
  When a download is in flight the mutation is queued in \<open>finishedFunc\<close>.
\<close>

definition reset :: "int \<Rightarrow> int \<Rightarrow> walletSynchronizer \<Rightarrow> bool \<times> walletSynchronizer" where
  "reset scanHeight scanTimestamp s =
     (if fetchingBlocks s
      then (False, s\<lparr>finishedFunc := Some (ResetLater scanHeight scanTimestamp)\<rparr>)
      else (True, resetNow scanHeight scanTimestamp s))"

definition rewind :: "int \<Rightarrow> walletSynchronizer \<Rightarrow> bool \<times> walletSynchronizer" where
  "rewind scanHeight s =
     (if fetchingBlocks s
      then (False, s\<lparr>finishedFunc := Some (RewindLater scanHeight)\<rparr>)
      else (True, rewindNow scanHeight s))"

text \<open>
  \<open>if (this.finishedFunc) { this.finishedFunc(); }\<close>: the queued closure applies the
  mutation, resolves the promise and clears \<open>finishedFunc\<close>.
\<close>

definition runFinishedFunc :: "walletSynchronizer \<Rightarrow> walletSynchronizer" where
  "runFinishedFunc s =
     (case finishedFunc s of
        None \<Rightarrow> s
      | Some (ResetLater scanHeight scanTimestamp) \<Rightarrow>
          (resetNow scanHeight scanTimestamp s)\<lparr>finishedFunc := None\<rparr>
      | Some (RewindLater scanHeight) \<Rightarrow>
          (rewindNow scanHeight s)\<lparr>finishedFunc := None\<rparr>)"

text \<open>
  The first loop of \<open>findCancelledTransactions\<close>, over the entries of the map: the hashes
  to remove, and the entries that stay.
\<close>

fun updateFailCounts ::
  "string list \<Rightarrow> (string \<times> nat) list \<Rightarrow> string list \<times> (string \<times> nat) list" where
  "updateFailCounts cancelled [] = ([], [])"
| "updateFailCounts cancelled ((hash, failCount) # entries) =
     (let (toRemove, kept) = updateFailCounts cancelled entries
      in if hash \<in> set cancelled then
           (if failCount = 10 then (hash # toRemove, kept)
            else (toRemove, (hash, failCount + 1) # kept))
         else (toRemove, kept))"

text \<open>The second loop, over \<open>cancelled\<close>: a hash with no entry gets the count 1.\<close>

fun addFirstFails :: "string list \<Rightarrow> (string \<times> nat) list \<Rightarrow> (string \<times> nat) list" where
  "addFirstFails [] entries = entries"
| "addFirstFails (hash # cancelled) entries =
     addFirstFails cancelled
       (if hash \<in> fst ` set entries then entries else entries @ [(hash, 1)])"

text \<open>
  \<open>findCancelledTransactions\<close>; \<open>cancelled\<close> is what the awaited
  \<open>daemon.getCancelledTransactions(transactionHashes)\<close> evaluates to (it is not asked for
  when \<open>transactionHashes\<close> is empty).
\<close>

definition findCancelledTransactions ::
  "string list \<Rightarrow> string list \<Rightarrow> walletSynchronizer \<Rightarrow> string list \<times> walletSynchronizer" where
  "findCancelledTransactions transactionHashes cancelled s =
     (if transactionHashes = [] then ([], s)
      else (let (toRemove, kept) = updateFailCounts cancelled (cancelledTransactionsFailCount s)
            in (toRemove, s\<lparr>cancelledTransactionsFailCount := addFirstFails cancelled kept\<rparr>)))"

text \<open>
  Calls of \<open>findCancelledTransactions\<close> one after the other, each given as the hashes
  asked about and the daemon's answer: the synchronizer after the last of them.
\<close>

fun afterChecks :: "(string list \<times> string list) list \<Rightarrow> walletSynchronizer \<Rightarrow> walletSynchronizer" where
  "afterChecks [] s = s"
| "afterChecks ((transactionHashes, cancelled) # calls) s =
     afterChecks calls (snd (findCancelledTransactions transactionHashes cancelled s))"

text \<open>
  How many of the latest answers in a row, counted back from the last, report the hash
  as not found.
\<close>

definition missingRun :: "string \<Rightarrow> (string list \<times> string list) list \<Rightarrow> nat" where
  "missingRun hash calls = length (takeWhile (\<lambda>call. hash \<in> set (snd call)) (rev calls))"

text \<open>
  The queue is not empty and its front block has the given height and the given hash:
  the guard of \<open>dropBlock\<close>.
\<close>

definition frontMatches :: "int \<Rightarrow> string \<Rightarrow> block list \<Rightarrow> bool" where
  "frontMatches bHeight bHash queue =
     (case queue of [] \<Rightarrow> False
      | front # others \<Rightarrow> blockHeight front = bHeight \<and> blockHash front = bHash)"

text \<open>
  \<open>shouldFetchMoreBlocks\<close>; \<open>sizeof\<close> is the function of the library \<open>object-sizeof\<close>.
\<close>

definition shouldFetchMoreBlocks :: "(block list \<Rightarrow> int) \<Rightarrow> walletSynchronizer \<Rightarrow> bool" where
  "shouldFetchMoreBlocks sizeof s =
     (if fetchingBlocks s then False
      else if sizeof (storedBlocks s) < blockStoreMemoryLimit s then True
      else False)"

text \<open>
  A stand-in for \<open>sizeof\<close> where a concrete one is needed: the number of blocks.
\<close>

definition blocksSize :: "block list \<Rightarrow> int" where
  "blocksSize queue = int (length queue)"

text \<open>\<open>a < b\<close> on JavaScript numbers where \<open>a\<close> may be \<open>undefined\<close> (then it is false).\<close>

definition jsLess :: "int option \<Rightarrow> int \<Rightarrow> bool" where
  "jsLess a b = (case a of None \<Rightarrow> False | Some x \<Rightarrow> x < b)"

text \<open>
  \<open>downloadBlocks\<close> up to its \<open>await\<close>: either it returns at once (\<open>Some\<close> of the pair
  \<open>[successOrBusy, shouldSleep]\<close>), or the request is sent and \<open>fetchingBlocks\<close> stays set
  (\<open>None\<close>). The checkpoints sent with the request are not modelled: the answer of the
  node is an input.
\<close>

definition downloadBlocks_begin ::
  "daemon \<Rightarrow> walletSynchronizer \<Rightarrow> (bool \<times> bool) option \<times> walletSynchronizer" where
  "downloadBlocks_begin d s =
     (if fetchingBlocks s then (Some (True, False), s)
      else (let s1 = s\<lparr>fetchingBlocks := True\<rparr>;
                localDaemonBlockCount = getLocalDaemonBlockCount d;
                walletBlockCount = getHeight s1
            in if jsLess localDaemonBlockCount walletBlockCount
               then (Some (True, True), s1\<lparr>fetchingBlocks := False\<rparr>)
               else (None, s1)))"

text \<open>
  \<open>downloadBlocks\<close> from the \<open>await\<close> on: \<open>answer\<close> is what \<open>daemon.getWalletSyncData\<close>
  returned (\<open>Inr\<close>) or threw (\<open>Inl\<close>). The call of
  \<open>subWallets.convertSyncTimestampToHeight\<close> changes the sub-wallets only.
\<close>

definition downloadBlocks_resume ::
  "(jserror + block list \<times> syncTop) \<Rightarrow> walletSynchronizer \<Rightarrow>
     (bool \<times> bool) \<times> synchronizer_event list \<times> walletSynchronizer" where
  "downloadBlocks_resume answer s =
     (case answer of
        Inl err \<Rightarrow> ((False, True), [], (runFinishedFunc s)\<lparr>fetchingBlocks := False\<rparr>)
      | Inr (newBlocks, topB) \<Rightarrow>
          (case newBlocks of
             [] \<Rightarrow>
               (case topB of
                  Top t \<Rightarrow>
                    (let s1 = runFinishedFunc s;
                         (evs, s2) =
                           (if storedBlocks s1 = []
                            then ([HeightChange (topHeight t)],
                                  s1\<lparr>synchronizationStatus :=
                                       storeBlockHash (topHeight t) (topHash t)
                                         (synchronizationStatus s1)\<rparr>)
                            else ([], s1));
                         s3 = runFinishedFunc s2
                     in ((True, True), evs, s3\<lparr>fetchingBlocks := False\<rparr>))
                | Flag b \<Rightarrow>
                    ((False, False), [], (runFinishedFunc s)\<lparr>fetchingBlocks := False\<rparr>))
           | first # others \<Rightarrow>
               (let s1 = (if startTimestamp s \<noteq> 0
                          then s\<lparr>startTimestamp := 0, startHeight := blockHeight first\<rparr>
                          else s);
                    s2 = s1\<lparr>storedBlocks := storedBlocks s1 @ newBlocks\<rparr>;
                    s3 = runFinishedFunc s2
                in ((True, False), [], s3\<lparr>fetchingBlocks := False\<rparr>))))"

text \<open>\<open>downloadBlocks\<close> with nothing else running between the request and its answer.\<close>

definition downloadBlocks ::
  "syncData network \<Rightarrow> daemon \<Rightarrow> walletSynchronizer \<Rightarrow>
     (bool \<times> bool) \<times> (daemon_event list \<times> synchronizer_event list) \<times> daemon \<times> walletSynchronizer" where
  "downloadBlocks net d s =
     (case downloadBlocks_begin d s of
        (Some result, s1) \<Rightarrow> (result, ([], []), d, s1)
      | (None, s1) \<Rightarrow>
          (case getWalletSyncData net d of
             (answer, devs, d1) \<Rightarrow>
               (case downloadBlocks_resume answer s1 of
                  (result, sevs, s2) \<Rightarrow> (result, (devs, sevs), d1, s2))))"

text \<open>
  \<open>dropBlock\<close>, as far as it runs before it returns: the refill it may start is not
  awaited, so of that download only the part before the request is sent runs here.
\<close>

definition dropBlock ::
  "(block list \<Rightarrow> int) \<Rightarrow> daemon \<Rightarrow> int \<Rightarrow> string \<Rightarrow> walletSynchronizer \<Rightarrow> walletSynchronizer" where
  "dropBlock sizeof d bHeight bHash s =
     (let s1 = (case storedBlocks s of
                  [] \<Rightarrow> s
                | front # others \<Rightarrow>
                    if blockHeight front = bHeight \<and> blockHash front = bHash
                    then s\<lparr>storedBlocks := others,
                           synchronizationStatus :=
                             storeBlockHash bHeight bHash (synchronizationStatus s)\<rparr>
                    else s)
      in if bHeight mod 10 = 0 \<and> shouldFetchMoreBlocks sizeof s1
         then snd (downloadBlocks_begin d s1)
         else s1)"

section \<open>The wallet facade\<close>

datatype wallet_event = Sync int int | Desync int int

text \<open>
  \<open>WalletBackend.updateDaemonInfo\<close>: the daemon is polled, then the height of the wallet
  is compared with \<open>daemon.getNetworkBlockCount()\<close>. The flag is \<open>this.synced\<close>; the
  auto-optimization it may start is not modelled.
\<close>

definition walletUpdateDaemonInfo ::
  "(nat \<Rightarrow> daemonInfo network) \<Rightarrow> walletSynchronizer \<Rightarrow> bool \<Rightarrow> daemon \<Rightarrow>
     wallet_event list \<times> bool \<times> daemon" where
  "walletUpdateDaemonInfo nets s isSynced d =
     (let d1 = snd (updateDaemonInfo nets 0 d);
          walletHeight = getHeight s;
          networkHeight' = getNetworkBlockCount d1
      in if walletHeight \<ge> networkHeight'
         then ((if \<not> isSynced then [Sync walletHeight networkHeight'] else []), True, d1)
         else ((if isSynced then [Desync walletHeight networkHeight'] else []), False, d1))"

section \<open>Utilities and the balance\<close>

text \<open>
  \<open>isInputUnlocked\<close>. \<open>maxBlockNumber\<close> is \<open>Constants.MAX_BLOCK_NUMBER\<close> (module
  \<open>Constants\<close> is not among the sources), \<open>nowMs\<close> what \<open>Date.now()\<close> returns.
\<close>

definition isInputUnlocked :: "int \<Rightarrow> int \<Rightarrow> int \<Rightarrow> int \<Rightarrow> bool" where
  "isInputUnlocked maxBlockNumber nowMs unlockTime currentHeight =
     (if unlockTime = 0 then True
      else if unlockTime \<ge> maxBlockNumber then nowMs div 1000 \<ge> unlockTime
      else currentHeight + 1 \<ge> unlockTime)"

text \<open>\<open>isHex64\<close>: the anchored expression \<open>^[0-9a-fA-F]{64}$\<close>.\<close>

definition isHexDigit :: "char \<Rightarrow> bool" where
  "isHexDigit c =
     (let n = (of_char c :: nat)
      in (48 \<le> n \<and> n \<le> 57) \<or> (97 \<le> n \<and> n \<le> 102) \<or> (65 \<le> n \<and> n \<le> 70))"

definition isHex64 :: "string \<Rightarrow> bool" where
  "isHex64 val = (length val = 64 \<and> list_all isHexDigit val)"

text \<open>
  Modelled from the spec: of a \<open>TransactionInput\<close> the fields the balance reads (class
  \<open>TransactionInput\<close> of \<open>Types\<close> is not among the sources).
\<close>

record transactionInput =
  keyImage :: string
  amount :: int
  unlockTime :: int

text \<open>
  Modelled from the spec: a sub-wallet, \<open>{public_spend_key, ..., unspent: [Input], ...}\<close>
  (class \<open>SubWallet\<close> is not among the sources).
\<close>

record subWallet =
  publicSpendKey :: string
  unspentInputs :: "transactionInput list"

text \<open>
  Modelled from the spec: the loop of the balance over the unspent inputs (class
  \<open>SubWallets\<close> is not among the sources). The spec: "sum input.amount of unspent inputs
  where is_input_unlocked(input.unlock_time, network_height) -> unlocked; else locked."
\<close>

fun inputsBalance :: "int \<Rightarrow> int \<Rightarrow> int \<Rightarrow> transactionInput list \<Rightarrow> int \<times> int" where
  "inputsBalance maxBlockNumber nowMs networkHeight' [] = (0, 0)"
| "inputsBalance maxBlockNumber nowMs networkHeight' (i # inputs) =
     (let (unlocked, locked) = inputsBalance maxBlockNumber nowMs networkHeight' inputs
      in if isInputUnlocked maxBlockNumber nowMs (unlockTime i) networkHeight'
         then (unlocked + amount i, locked)
         else (unlocked, locked + amount i))"

text \<open>
  Modelled from the spec: "for each subwallet in filter", the unspent inputs of the
  sub-wallets whose key is among the given ones.
\<close>

definition unspentOf :: "string list \<Rightarrow> subWallet list \<Rightarrow> transactionInput list" where
  "unspentOf keys wallets =
     concat (map unspentInputs (filter (\<lambda>w. publicSpendKey w \<in> set keys) wallets))"

text \<open>
  Modelled from the spec: \<open>get_balance(network_height, filter) -> (unlocked, locked)\<close> of
  the sub-wallet store, which is not among the sources.
\<close>

definition getBalance :: "int \<Rightarrow> int \<Rightarrow> int \<Rightarrow> string list \<Rightarrow> subWallet list \<Rightarrow> int \<times> int" where
  "getBalance maxBlockNumber nowMs networkHeight' keys wallets =
     inputsBalance maxBlockNumber nowMs networkHeight' (unspentOf keys wallets)"

section \<open>Validation of a payment ID\<close>

text \<open>The JavaScript values a caller may pass where a string or a boolean is expected.\<close>

datatype jsvalue = JSString string | JSBoolean bool | JSNumber int | JSUndefined

datatype walletErrorCode = SUCCESS | PAYMENT_ID_WRONG_LENGTH | PAYMENT_ID_INVALID

definition isString :: "jsvalue \<Rightarrow> bool" where
  "isString v = (case v of JSString _ \<Rightarrow> True | _ \<Rightarrow> False)"

definition isBoolean :: "jsvalue \<Rightarrow> bool" where
  "isBoolean v = (case v of JSBoolean _ \<Rightarrow> True | _ \<Rightarrow> False)"

text \<open>\<open>assertType\<close> of \<open>Assert.js\<close>; the name and the type's name only go into the message.\<close>

definition assertType :: "jsvalue \<Rightarrow> (jsvalue \<Rightarrow> bool) \<Rightarrow> bool \<Rightarrow> jserror + unit" where
  "assertType param typeVerificationFunc allowUndefined =
     (if allowUndefined \<and> param = JSUndefined then Inr ()
      else if \<not> typeVerificationFunc param then Inl AssertError
      else Inr ())"

definition assertString :: "jsvalue \<Rightarrow> jserror + unit" where
  "assertString param = assertType param isString False"

definition assertBoolean :: "jsvalue \<Rightarrow> jserror + unit" where
  "assertBoolean param = assertType param isBoolean False"

text \<open>The character class \<open>[a-zA-Z0-9]\<close>.\<close>

definition isAlnum :: "char \<Rightarrow> bool" where
  "isAlnum c =
     (let n = (of_char c :: nat)
      in (97 \<le> n \<and> n \<le> 122) \<or> (65 \<le> n \<and> n \<le> 90) \<or> (48 \<le> n \<and> n \<le> 57))"

text \<open>
  \<open>paymentID.match(new RegExp(/[a-zA-Z0-9]{64}/))\<close> is not \<open>null\<close>: the expression is not
  anchored, so it matches when 64 characters of the class follow each other anywhere in
  the string.
\<close>

definition alnumAt :: "nat \<Rightarrow> string \<Rightarrow> bool" where
  "alnumAt n s = (n \<le> length s \<and> list_all isAlnum (take n s))"

fun matchesAlnumRun :: "nat \<Rightarrow> string \<Rightarrow> bool" where
  "matchesAlnumRun n [] = alnumAt n []"
| "matchesAlnumRun n (c # s) = (alnumAt n (c # s) \<or> matchesAlnumRun n s)"

text \<open>
  \<open>validatePaymentID\<close>; the second argument is \<open>JSUndefined\<close> when the caller leaves it
  out, and then takes its default \<open>true\<close>.
\<close>

definition validatePaymentID :: "jsvalue \<Rightarrow> jsvalue \<Rightarrow> jserror + walletErrorCode" where
  "validatePaymentID paymentID allowEmptyStringArg =
     (let allowEmptyString =
            (if allowEmptyStringArg = JSUndefined then JSBoolean True else allowEmptyStringArg)
      in case assertString paymentID of
           Inl e \<Rightarrow> Inl e
         | Inr _ \<Rightarrow>
             (case assertBoolean allowEmptyString of
                Inl e \<Rightarrow> Inl e
              | Inr _ \<Rightarrow>
                  (case (paymentID, allowEmptyString) of
                     (JSString p, JSBoolean allow) \<Rightarrow>
                       if p = [] \<and> allow then Inr SUCCESS
                       else if length p \<noteq> 64 then Inr PAYMENT_ID_WRONG_LENGTH
                       else if \<not> matchesAlnumRun 64 p then Inr PAYMENT_ID_INVALID
                       else Inr SUCCESS
                   | _ \<Rightarrow> Inl AssertError)))"

section \<open>Properties of the daemon\<close>

lemma makeRequest_blockCount: "blockCount (snd (snd (makeRequest net d))) = blockCount d"
  by (simp add: makeRequest_def emitConnect_def emitDisconnect_def Let_def split: option.splits)

lemma makeRequest_blocksPerDaemonRequest:
  "blocksPerDaemonRequest (snd (snd (makeRequest net d))) = blocksPerDaemonRequest d"
  by (simp add: makeRequest_def emitConnect_def emitDisconnect_def Let_def split: option.splits)

lemma ceilQuarter_ceiling: "ceilQuarter n = \<lceil>real_of_int n / 4\<rceil>"
proof -
  have "\<lfloor>real_of_int (- n) / real_of_int 4\<rfloor> = (- n) div 4"
    by (rule floor_divide_of_int_eq)
  then show ?thesis
    by (simp add: ceiling_def ceilQuarter_def)
qed

lemma ceilQuarter_floor_one: "1 \<le> n \<Longrightarrow> 1 \<le> ceilQuarter n"
  unfolding ceilQuarter_def by linarith

lemma getWalletSyncData_failure_blockCount:
  "fst (makeRequest net d) = None \<Longrightarrow>
   blockCount (snd (snd (getWalletSyncData net d))) = ceilQuarter (blockCount d)"
  using makeRequest_blockCount [of net d]
  by (cases "makeRequest net d") (simp add: getWalletSyncData_def)

lemma getWalletSyncData_success_blockCount:
  "fst (makeRequest net d) \<noteq> None \<Longrightarrow>
   blockCount (snd (snd (getWalletSyncData net d))) =
     (if blockCount d \<noteq> blocksPerDaemonRequest d
      then min (blocksPerDaemonRequest d) (blockCount d * 2) else blockCount d)"
  using makeRequest_blockCount [of net d] makeRequest_blocksPerDaemonRequest [of net d]
  by (cases "makeRequest net d")
     (auto simp add: getWalletSyncData_def Let_def split: option.splits sum.splits)

text \<open>
  C3. Batch-size dynamics of \<open>getWalletSyncData\<close>. For a batch size between 1 and the
  configured cap: after a request that succeeded the new batch size is at least the old
  one and at most the cap (it is the old one doubled, clamped to the cap, and unchanged
  at the cap); after a request that failed it is the ceiling of a quarter of the old one,
  and at least 1.
\<close>

theorem C3_batch_size_dynamics:
  assumes "1 \<le> blockCount d" and "blockCount d \<le> blocksPerDaemonRequest d"
  shows "(fst (makeRequest net d) \<noteq> None \<longrightarrow>
            blockCount d \<le> blockCount (snd (snd (getWalletSyncData net d))) \<and>
            blockCount (snd (snd (getWalletSyncData net d))) \<le> blocksPerDaemonRequest d \<and>
            blockCount (snd (snd (getWalletSyncData net d))) =
              min (blocksPerDaemonRequest d) (2 * blockCount d)) \<and>
         (fst (makeRequest net d) = None \<longrightarrow>
            blockCount (snd (snd (getWalletSyncData net d))) = \<lceil>real_of_int (blockCount d) / 4\<rceil> \<and>
            1 \<le> blockCount (snd (snd (getWalletSyncData net d))))"
proof (intro conjI impI)
  assume ok: "fst (makeRequest net d) \<noteq> None"
  note eq = getWalletSyncData_success_blockCount [OF ok]
  show "blockCount d \<le> blockCount (snd (snd (getWalletSyncData net d)))"
    using assms by (simp add: eq)
  show "blockCount (snd (snd (getWalletSyncData net d))) \<le> blocksPerDaemonRequest d"
    using assms by (simp add: eq)
  show "blockCount (snd (snd (getWalletSyncData net d))) =
          min (blocksPerDaemonRequest d) (2 * blockCount d)"
    using assms by (simp add: eq mult.commute)
next
  assume bad: "fst (makeRequest net d) = None"
  note eq = getWalletSyncData_failure_blockCount [OF bad]
  show "blockCount (snd (snd (getWalletSyncData net d))) = \<lceil>real_of_int (blockCount d) / 4\<rceil>"
    by (simp add: eq ceilQuarter_ceiling)
  show "1 \<le> blockCount (snd (snd (getWalletSyncData net d)))"
    using assms(1) by (simp add: eq ceilQuarter_floor_one)
qed

theorem C3_batch_size_dynamics_witness:
  "blockCount (snd (snd (getWalletSyncData unreachable (newDaemon False None 100)))) = 25 \<and>
   blockCount (snd (snd (getWalletSyncData (answering \<lparr>blocks = [], synced = False, topBlock = None\<rparr>)
      ((newDaemon False None 100)\<lparr>blockCount := 25\<rparr>)))) = 50"
proof -
  have a: "1 \<le> blockCount (newDaemon False None 100)"
    and b: "blockCount (newDaemon False None 100) \<le> blocksPerDaemonRequest (newDaemon False None 100)"
    by (simp_all add: newDaemon_def)
  have c: "1 \<le> blockCount ((newDaemon False None 100)\<lparr>blockCount := 25\<rparr>)"
    and e: "blockCount ((newDaemon False None 100)\<lparr>blockCount := 25\<rparr>)
              \<le> blocksPerDaemonRequest ((newDaemon False None 100)\<lparr>blockCount := 25\<rparr>)"
    by (simp_all add: newDaemon_def)
  have f: "fst (makeRequest (unreachable :: syncData network) (newDaemon False None 100)) = None"
    by (simp add: makeRequest_def unreachable_def newDaemon_def emitDisconnect_def)
  have g: "fst (makeRequest (answering \<lparr>blocks = [], synced = False, topBlock = None\<rparr>)
             ((newDaemon False None 100)\<lparr>blockCount := 25\<rparr>)) \<noteq> None"
    by (simp add: makeRequest_def answering_def newDaemon_def emitConnect_def)
  from C3_batch_size_dynamics [OF a b, of unreachable] f
  have "blockCount (snd (snd (getWalletSyncData unreachable (newDaemon False None 100)))) = 25"
    by (simp add: newDaemon_def)
  moreover
  from C3_batch_size_dynamics [OF c e, of "answering \<lparr>blocks = [], synced = False, topBlock = None\<rparr>"] g
  have "blockCount (snd (snd (getWalletSyncData (answering \<lparr>blocks = [], synced = False, topBlock = None\<rparr>)
      ((newDaemon False None 100)\<lparr>blockCount := 25\<rparr>)))) = 50"
    by (simp add: newDaemon_def)
  ultimately show ?thesis by simp
qed

lemma makeRequest_connected:
  "connected (snd (snd (makeRequest net d))) = (fst (makeRequest net d) \<noteq> None)"
  by (simp add: makeRequest_def emitConnect_def emitDisconnect_def Let_def split: option.splits)

lemma makeRequest_events:
  "fst (snd (makeRequest net d)) =
     (if fst (makeRequest net d) \<noteq> None
      then (if connected d then [] else [Connect])
      else (if connected d then [Disconnect] else []))"
  by (simp add: makeRequest_def emitConnect_def emitDisconnect_def Let_def split: option.splits)

lemma makeRequests_length: "length (makeRequests nets d) = length nets"
  by (induction nets arbitrary: d) (auto split: prod.splits)

lemma makeRequests_edges:
  "i < length nets \<Longrightarrow>
   snd (makeRequests nets d ! i) =
     (if fst (makeRequests nets d ! i)
      then (if (if i = 0 then connected d else fst (makeRequests nets d ! (i - 1))) then [] else [Connect])
      else (if (if i = 0 then connected d else fst (makeRequests nets d ! (i - 1))) then [Disconnect] else []))"
proof (induction nets arbitrary: d i)
  case Nil
  then show ?case by simp
next
  case (Cons net nets)
  obtain r evs d1 where step: "makeRequest net d = (r, evs, d1)"
    by (cases "makeRequest net d") auto
  have conn: "connected d1 = (r \<noteq> None)"
    using makeRequest_connected [of net d] step by simp
  have evs: "evs = (if r \<noteq> None then (if connected d then [] else [Connect])
                    else (if connected d then [Disconnect] else []))"
    using makeRequest_events [of net d] step by simp
  show ?case
  proof (cases i)
    case 0
    then show ?thesis using step evs by simp
  next
    case (Suc j)
    then have j: "j < length nets" using Cons.prems by simp
    show ?thesis
    proof (cases j)
      case 0
      then show ?thesis
        using Suc step conn Cons.IH [OF j, of d1] by simp
    next
      case (Suc k)
      then show ?thesis
        using \<open>i = Suc j\<close> step Cons.IH [OF j, of d1] by simp
    qed
  qed
qed

lemma newDaemon_connected: "connected (newDaemon isRawIP sslArg cap)"
  by (simp add: newDaemon_def Let_def)

text \<open>
  Between two requests that both emit \<open>disconnect\<close> there is a request that succeeded,
  and a request that emits \<open>connect\<close> comes right after one that failed.
\<close>

lemma no_second_disconnect:
  assumes "i < j" and "j < length nets"
    and "Disconnect \<in> set (snd (makeRequests nets d ! i))"
    and "Disconnect \<in> set (snd (makeRequests nets d ! j))"
  shows "fst (makeRequests nets d ! (j - 1)) \<and> i < j - 1"
proof -
  have i: "i < length nets" using assms(1,2) by simp
  have failed: "\<not> fst (makeRequests nets d ! i)"
    using assms(3) makeRequests_edges [OF i, of d] by (auto split: if_splits)
  have before: "fst (makeRequests nets d ! (j - 1))"
    using assms(1,4) makeRequests_edges [OF assms(2), of d] by (auto split: if_splits)
  have "i \<noteq> j - 1" using failed before by auto
  then show ?thesis using before assms(1) by simp
qed

lemma connect_follows_failure:
  assumes "i < length nets" and "Connect \<in> set (snd (makeRequests nets d ! i))"
  shows "fst (makeRequests nets d ! i)
       \<and> (if i = 0 then \<not> connected d else \<not> fst (makeRequests nets d ! (i - 1)))"
  using assms(2) makeRequests_edges [OF assms(1), of d] by (auto split: if_splits)

text \<open>
  C8 (as amended). Over every run of requests of a freshly constructed daemon, a request
  emits \<open>disconnect\<close> exactly when it fails and it is either the first request or the
  request before it succeeded, and \<open>connect\<close> exactly when it succeeds and the request
  before it failed; otherwise it emits nothing. The flag \<open>connected\<close> starts as true, so a
  failure of the very first request does emit \<open>disconnect\<close>.
\<close>

theorem C8_connect_disconnect_edges:
  assumes "i < length nets"
  shows "snd (makeRequests nets (newDaemon isRawIP sslArg cap) ! i) =
     (if fst (makeRequests nets (newDaemon isRawIP sslArg cap) ! i)
      then (if 0 < i \<and> \<not> fst (makeRequests nets (newDaemon isRawIP sslArg cap) ! (i - 1))
            then [Connect] else [])
      else (if i = 0 \<or> fst (makeRequests nets (newDaemon isRawIP sslArg cap) ! (i - 1))
            then [Disconnect] else []))"
  using makeRequests_edges [OF assms, of "newDaemon isRawIP sslArg cap"] newDaemon_connected [of isRawIP sslArg cap]
  by (cases "i = 0") auto

theorem C8_connect_disconnect_edges_witness:
  "makeRequests [unreachable, unreachable, answering (0::nat), answering 0, unreachable]
     (newDaemon False None 100) =
   [(False, [Disconnect]), (False, []), (True, [Connect]), (True, []), (False, [Disconnect])]
   \<and> snd (makeRequests [unreachable, unreachable, answering (0::nat), answering 0, unreachable]
     (newDaemon False None 100) ! 2) = [Connect]"
proof -
  have run: "makeRequests [unreachable, unreachable, answering (0::nat), answering 0, unreachable]
     (newDaemon False None 100) =
   [(False, [Disconnect]), (False, []), (True, [Connect]), (True, []), (False, [Disconnect])]"
    by (simp add: makeRequest_def unreachable_def answering_def newDaemon_def emitConnect_def
        emitDisconnect_def)
  have "(2::nat) < length [unreachable, unreachable, answering (0::nat), answering 0, unreachable]"
    by simp
  from C8_connect_disconnect_edges [OF this, of False None 100] run
  show ?thesis by simp
qed

text \<open>
  The very first request of a fresh daemon fails: \<open>disconnect\<close> is emitted, although no
  contact has ever succeeded.
\<close>

theorem C8_first_failure_counterexample:
  "fst (snd (makeRequest (unreachable :: nat network) (newDaemon False None 100))) = [Disconnect]"
  by (simp add: makeRequest_def unreachable_def newDaemon_def emitDisconnect_def)

lemma updateDaemonInfo_direct:
  assumes "makeRequest (nets k) d = (Some info, evs, d1)"
    and "height info \<noteq> None \<or> sslDetermined d"
  shows "networkBlockCount (snd (updateDaemonInfo nets k d)) =
           (if 0 < networkHeight info then networkHeight info - 1 else networkHeight info)"
    and "localDaemonBlockCount (snd (updateDaemonInfo nets k d)) = height info"
  using assms by (auto simp add: updateDaemonInfo.simps [of nets k d] Let_def)

lemma makeRequest_sslDetermined:
  "fst (makeRequest net d) \<noteq> None \<Longrightarrow> sslDetermined (snd (snd (makeRequest net d)))"
  by (auto simp add: makeRequest_def emitConnect_def emitDisconnect_def Let_def split: option.splits if_splits)

lemma updateDaemonInfo_stored:
  assumes "storedAnswer nets k d = Some info"
  shows "networkBlockCount (snd (updateDaemonInfo nets k d)) =
           (if 0 < networkHeight info then networkHeight info - 1 else networkHeight info)
         \<and> localDaemonBlockCount (snd (updateDaemonInfo nets k d)) = height info"
proof -
  obtain r evs d1 where step: "makeRequest (nets k) d = (r, evs, d1)"
    by (cases "makeRequest (nets k) d") auto
  with assms obtain info0 where r: "r = Some info0"
    by (cases r) (auto simp add: storedAnswer_def)
  show ?thesis
  proof (cases "height info0 = None \<and> \<not> sslDetermined d")
    case False
    then have "info = info0" using assms step r by (auto simp add: storedAnswer_def)
    then show ?thesis
      using updateDaemonInfo_direct [of nets k d info evs d1] step r False by auto
  next
    case True
    let ?d = "d1\<lparr>sslDetermined := True, ssl := False\<rparr>"
    obtain r2 evs2 d2 where step2: "makeRequest (nets (Suc k)) ?d = (r2, evs2, d2)"
      by (cases "makeRequest (nets (Suc k)) ?d") auto
    have r2: "r2 = Some info" using assms step r True step2 by (simp add: storedAnswer_def)
    have unfold: "snd (updateDaemonInfo nets k d) = snd (updateDaemonInfo nets (Suc k) ?d)"
      using step r True by (simp add: updateDaemonInfo.simps [of nets k d] split: prod.splits)
    show ?thesis
      unfolding unfold
      using updateDaemonInfo_direct [of nets "Suc k" ?d info evs2 d2] step2 r2 by simp
  qed
qed

text \<open>
  C9. After a call of \<open>updateDaemonInfo\<close> that stores an \<open>/info\<close> answer whose
  \<open>networkHeight\<close> is positive, \<open>getNetworkBlockCount\<close> returns that height minus one
  and \<open>getLocalDaemonBlockCount\<close> the reported \<open>height\<close> as it is; the wallet then
  counts as synced exactly when its height is at least the reported network height minus
  one.
\<close>

theorem C9_network_block_count:
  assumes "storedAnswer nets 0 d = Some info" and "0 < networkHeight info"
  shows "getNetworkBlockCount (snd (updateDaemonInfo nets 0 d)) = networkHeight info - 1
       \<and> getLocalDaemonBlockCount (snd (updateDaemonInfo nets 0 d)) = height info
       \<and> fst (snd (walletUpdateDaemonInfo nets s isSynced d)) = (getHeight s \<ge> networkHeight info - 1)"
  using updateDaemonInfo_stored [OF assms(1)] assms(2)
  by (simp add: getNetworkBlockCount_def getLocalDaemonBlockCount_def walletUpdateDaemonInfo_def Let_def)

theorem C9_network_block_count_witness:
  "getNetworkBlockCount (snd (updateDaemonInfo
      (everyRequest (answering \<lparr>height = Some 500, networkHeight = 600, incomingConnections = 1,
         outgoingConnections = 2, hashrate = 3\<rparr>)) 0 (newDaemon False None 100))) = 599
   \<and> getLocalDaemonBlockCount (snd (updateDaemonInfo
      (everyRequest (answering \<lparr>height = Some 500, networkHeight = 600, incomingConnections = 1,
         outgoingConnections = 2, hashrate = 3\<rparr>)) 0 (newDaemon False None 100))) = Some 500"
proof -
  have a: "storedAnswer
      (everyRequest (answering \<lparr>height = Some 500, networkHeight = 600, incomingConnections = 1,
         outgoingConnections = 2, hashrate = 3\<rparr>)) 0 (newDaemon False None 100) =
      Some \<lparr>height = Some 500, networkHeight = 600, incomingConnections = 1,
         outgoingConnections = 2, hashrate = 3\<rparr>"
    by (simp add: storedAnswer_def makeRequest_def everyRequest_def answering_def newDaemon_def
        emitConnect_def)
  have b: "0 < networkHeight \<lparr>height = Some 500, networkHeight = 600, incomingConnections = 1,
         outgoingConnections = 2, hashrate = 3\<rparr>"
    by simp
  from C9_network_block_count [OF a b]
  show ?thesis by simp
qed

section \<open>Properties of the synchronizer\<close>

lemma getWalletSyncData_failure_answer:
  "fst (makeRequest net d) = None \<Longrightarrow> fst (getWalletSyncData net d) = Inr ([], Flag False)"
  by (cases "makeRequest net d") (simp add: getWalletSyncData_def)

lemma resume_no_blocks_failed:
  "fst (downloadBlocks_resume (Inr ([], Flag b)) s) = (False, False) \<and>
   \<not> fetchingBlocks (snd (snd (downloadBlocks_resume (Inr ([], Flag b)) s)))"
  by (simp add: downloadBlocks_resume_def)

text \<open>
  C2 (as amended). When the request inside \<open>getWalletSyncData\<close> fails with a transport
  error, \<open>getWalletSyncData\<close> catches it and returns \<open>[[], false]\<close>, the block count
  becomes the ceiling of a quarter of what it was (at least 1 when it was at least 1),
  and \<open>downloadBlocks\<close> clears \<open>fetchingBlocks\<close> and returns \<open>[false, false]\<close>.
\<close>

theorem C2_transport_failure:
  assumes "fst (makeRequest net d) = None"
    and "downloadBlocks_begin d s = (None, s1)"
  shows "fst (getWalletSyncData net d) = Inr ([], Flag False)
       \<and> blockCount (fst (snd (snd (downloadBlocks net d s)))) = \<lceil>real_of_int (blockCount d) / 4\<rceil>
       \<and> (1 \<le> blockCount d \<longrightarrow> 1 \<le> blockCount (fst (snd (snd (downloadBlocks net d s)))))
       \<and> fst (downloadBlocks net d s) = (False, False)
       \<and> \<not> fetchingBlocks (snd (snd (snd (downloadBlocks net d s))))"
proof -
  obtain answer devs d1 where g: "getWalletSyncData net d = (answer, devs, d1)"
    by (cases "getWalletSyncData net d") auto
  have answer: "answer = Inr ([], Flag False)"
    using getWalletSyncData_failure_answer [OF assms(1)] g by simp
  have count: "blockCount d1 = ceilQuarter (blockCount d)"
    using getWalletSyncData_failure_blockCount [OF assms(1)] g by simp
  obtain result sevs s2 where r: "downloadBlocks_resume answer s1 = (result, sevs, s2)"
    by (cases "downloadBlocks_resume answer s1") auto
  have res: "result = (False, False)" and flag: "\<not> fetchingBlocks s2"
    using resume_no_blocks_failed [of False s1] r answer by simp_all
  have whole: "downloadBlocks net d s = (result, (devs, sevs), d1, s2)"
    by (simp add: downloadBlocks_def assms(2) g r)
  show ?thesis
    using answer count res flag g
    by (simp add: whole ceilQuarter_ceiling [symmetric] ceilQuarter_floor_one)
qed

theorem C2_transport_failure_witness:
  "blockCount (fst (snd (snd (downloadBlocks unreachable (newDaemon False None 100)
      (newWalletSynchronizer 0 0 1000 (newSynchronizationStatus 0)))))) = 25
   \<and> fst (downloadBlocks unreachable (newDaemon False None 100)
      (newWalletSynchronizer 0 0 1000 (newSynchronizationStatus 0))) = (False, False)"
proof -
  have a: "fst (makeRequest (unreachable :: syncData network) (newDaemon False None 100)) = None"
    by (simp add: makeRequest_def unreachable_def newDaemon_def emitDisconnect_def)
  have b: "downloadBlocks_begin (newDaemon False None 100)
             (newWalletSynchronizer 0 0 1000 (newSynchronizationStatus 0)) =
           (None, (newWalletSynchronizer 0 0 1000 (newSynchronizationStatus 0))\<lparr>fetchingBlocks := True\<rparr>)"
    by (simp add: downloadBlocks_begin_def newDaemon_def newWalletSynchronizer_def
        newSynchronizationStatus_def getLocalDaemonBlockCount_def getHeight_def jsLess_def Let_def)
  from C2_transport_failure [OF a b]
  show ?thesis by (simp add: newDaemon_def)
qed

text \<open>
  A fresh daemon (block count 100) that cannot be reached: the block count is then not
  50, and \<open>downloadBlocks\<close> does not return \<open>[false, true]\<close>.
\<close>

theorem C2_halving_counterexample:
  "blockCount (fst (snd (snd (downloadBlocks unreachable (newDaemon False None 100)
      (newWalletSynchronizer 0 0 1000 (newSynchronizationStatus 0)))))) \<noteq> \<lceil>real_of_int 100 / 2\<rceil>
   \<and> fst (downloadBlocks unreachable (newDaemon False None 100)
      (newWalletSynchronizer 0 0 1000 (newSynchronizationStatus 0))) \<noteq> (False, True)"
  by (simp add: downloadBlocks_def downloadBlocks_begin_def downloadBlocks_resume_def
      getWalletSyncData_def makeRequest_def unreachable_def newDaemon_def emitDisconnect_def
      newWalletSynchronizer_def newSynchronizationStatus_def getLocalDaemonBlockCount_def
      getHeight_def jsLess_def runFinishedFunc_def ceilQuarter_def Let_def)

text \<open>
  C4 (as amended). A \<open>rewind\<close> to a scan height with no download in flight applies at
  once and its promise is resolved: the stored blocks are empty, the start height is the
  scan height, the start timestamp is 0, and the synchronization status is a new one of
  height \<open>scanHeight - 1\<close> with no recent block hashes and no checkpoints; this is the
  state a \<open>reset\<close> to the same height leaves, but for the start timestamp 0. With a
  download in flight the \<open>rewind\<close> only queues itself in \<open>finishedFunc\<close>. A queued
  \<open>rewind\<close>, once \<open>finishedFunc\<close> runs, leaves the same state (and as a queued \<open>reset\<close>
  does but for the start timestamp), with \<open>finishedFunc\<close> cleared; and when the download
  in flight fails, or brings no blocks and no top block, or brings blocks, that is the
  state in which \<open>downloadBlocks\<close> returns, with \<open>fetchingBlocks\<close> cleared. (The answer
  with no blocks and a top block is the subject of C5.)
\<close>

theorem C4_rewind_discards_history:
  "(\<not> fetchingBlocks s \<longrightarrow>
      rewind scanHeight s =
        (True, s\<lparr>startHeight := scanHeight, startTimestamp := 0,
                 synchronizationStatus :=
                   \<lparr>blockHashCheckpoints = [], lastKnownBlockHashes = [],
                    lastKnownBlockHeight = scanHeight - 1, lastSavedCheckpointAt = 0\<rparr>,
                 storedBlocks := []\<rparr>)
      \<and> snd (rewind scanHeight s) = (snd (reset scanHeight scanTimestamp s))\<lparr>startTimestamp := 0\<rparr>)
   \<and> (fetchingBlocks s \<longrightarrow>
      rewind scanHeight s = (False, s\<lparr>finishedFunc := Some (RewindLater scanHeight)\<rparr>))
   \<and> (finishedFunc q = Some (RewindLater scanHeight) \<longrightarrow>
      runFinishedFunc q =
        q\<lparr>startHeight := scanHeight, startTimestamp := 0,
          synchronizationStatus :=
            \<lparr>blockHashCheckpoints = [], lastKnownBlockHashes = [],
             lastKnownBlockHeight = scanHeight - 1, lastSavedCheckpointAt = 0\<rparr>,
          storedBlocks := [], finishedFunc := None\<rparr>
      \<and> runFinishedFunc q =
          (runFinishedFunc (q\<lparr>finishedFunc := Some (ResetLater scanHeight scanTimestamp)\<rparr>))
            \<lparr>startTimestamp := 0\<rparr>
      \<and> (answer = Inl err \<or> answer = Inr ([], Flag b) \<or> answer = Inr (first # others, topB) \<longrightarrow>
          snd (snd (downloadBlocks_resume answer q)) =
            q\<lparr>startHeight := scanHeight, startTimestamp := 0,
              synchronizationStatus :=
                \<lparr>blockHashCheckpoints = [], lastKnownBlockHashes = [],
                 lastKnownBlockHeight = scanHeight - 1, lastSavedCheckpointAt = 0\<rparr>,
              storedBlocks := [], finishedFunc := None, fetchingBlocks := False\<rparr>))"
proof (intro conjI impI)
  assume "\<not> fetchingBlocks s"
  then show "rewind scanHeight s =
        (True, s\<lparr>startHeight := scanHeight, startTimestamp := 0,
                 synchronizationStatus :=
                   \<lparr>blockHashCheckpoints = [], lastKnownBlockHashes = [],
                    lastKnownBlockHeight = scanHeight - 1, lastSavedCheckpointAt = 0\<rparr>,
                 storedBlocks := []\<rparr>)"
    by (simp add: rewind_def rewindNow_def newSynchronizationStatus_def)
next
  assume "\<not> fetchingBlocks s"
  then show "snd (rewind scanHeight s) = (snd (reset scanHeight scanTimestamp s))\<lparr>startTimestamp := 0\<rparr>"
    by (simp add: rewind_def reset_def rewindNow_def resetNow_def)
next
  assume "fetchingBlocks s"
  then show "rewind scanHeight s = (False, s\<lparr>finishedFunc := Some (RewindLater scanHeight)\<rparr>)"
    by (simp add: rewind_def)
next
  assume q: "finishedFunc q = Some (RewindLater scanHeight)"
  then show "runFinishedFunc q =
        q\<lparr>startHeight := scanHeight, startTimestamp := 0,
          synchronizationStatus :=
            \<lparr>blockHashCheckpoints = [], lastKnownBlockHashes = [],
             lastKnownBlockHeight = scanHeight - 1, lastSavedCheckpointAt = 0\<rparr>,
          storedBlocks := [], finishedFunc := None\<rparr>"
    by (simp add: runFinishedFunc_def rewindNow_def newSynchronizationStatus_def)
next
  assume q: "finishedFunc q = Some (RewindLater scanHeight)"
  then show "runFinishedFunc q =
          (runFinishedFunc (q\<lparr>finishedFunc := Some (ResetLater scanHeight scanTimestamp)\<rparr>))
            \<lparr>startTimestamp := 0\<rparr>"
    by (simp add: runFinishedFunc_def rewindNow_def resetNow_def)
next
  assume q: "finishedFunc q = Some (RewindLater scanHeight)"
    and a: "answer = Inl err \<or> answer = Inr ([], Flag b) \<or> answer = Inr (first # others, topB)"
  from a show "snd (snd (downloadBlocks_resume answer q)) =
            q\<lparr>startHeight := scanHeight, startTimestamp := 0,
              synchronizationStatus :=
                \<lparr>blockHashCheckpoints = [], lastKnownBlockHashes = [],
                 lastKnownBlockHeight = scanHeight - 1, lastSavedCheckpointAt = 0\<rparr>,
              storedBlocks := [], finishedFunc := None, fetchingBlocks := False\<rparr>"
  proof (elim disjE)
    assume "answer = Inl err"
    then show ?thesis using q
      by (simp add: downloadBlocks_resume_def runFinishedFunc_def rewindNow_def
          newSynchronizationStatus_def)
  next
    assume "answer = Inr ([], Flag b)"
    then show ?thesis using q
      by (simp add: downloadBlocks_resume_def runFinishedFunc_def rewindNow_def
          newSynchronizationStatus_def)
  next
    assume "answer = Inr (first # others, topB)"
    then show ?thesis using q
      by (simp add: downloadBlocks_resume_def runFinishedFunc_def rewindNow_def
          newSynchronizationStatus_def Let_def)
  qed
qed


theorem C4_rewind_discards_history_witness:
  "lastKnownBlockHashes (synchronizationStatus (snd (rewind 3
      ((newWalletSynchronizer 7 0 1000 (newSynchronizationStatus 0))
         \<lparr>synchronizationStatus :=
            storeBlockHash 2 ''b'' (storeBlockHash 1 ''a'' (newSynchronizationStatus 0))\<rparr>)))) = []
   \<and> startTimestamp (snd (rewind 3
      ((newWalletSynchronizer 7 0 1000 (newSynchronizationStatus 0))
         \<lparr>synchronizationStatus :=
            storeBlockHash 2 ''b'' (storeBlockHash 1 ''a'' (newSynchronizationStatus 0))\<rparr>))) = 0
   \<and> \<not> fst (rewind 3
      ((newWalletSynchronizer 7 0 1000 (newSynchronizationStatus 0))
         \<lparr>synchronizationStatus :=
            storeBlockHash 2 ''b'' (storeBlockHash 1 ''a'' (newSynchronizationStatus 0)),
          fetchingBlocks := True\<rparr>))
   \<and> lastKnownBlockHashes (synchronizationStatus (snd (snd (downloadBlocks_resume
        (Inr ([\<lparr>blockHeight = 3, blockHash = ''c'', blockTimestamp = 0\<rparr>], Flag True))
        (snd (rewind 3
      ((newWalletSynchronizer 7 0 1000 (newSynchronizationStatus 0))
         \<lparr>synchronizationStatus :=
            storeBlockHash 2 ''b'' (storeBlockHash 1 ''a'' (newSynchronizationStatus 0)),
          fetchingBlocks := True\<rparr>))))))) = []
   \<and> getHeight (snd (snd (downloadBlocks_resume
        (Inr ([\<lparr>blockHeight = 3, blockHash = ''c'', blockTimestamp = 0\<rparr>], Flag True))
        (snd (rewind 3
      ((newWalletSynchronizer 7 0 1000 (newSynchronizationStatus 0))
         \<lparr>synchronizationStatus :=
            storeBlockHash 2 ''b'' (storeBlockHash 1 ''a'' (newSynchronizationStatus 0)),
          fetchingBlocks := True\<rparr>)))))) = 2"
proof -
  have idle: "\<not> fetchingBlocks
      ((newWalletSynchronizer 7 0 1000 (newSynchronizationStatus 0))
         \<lparr>synchronizationStatus :=
            storeBlockHash 2 ''b'' (storeBlockHash 1 ''a'' (newSynchronizationStatus 0))\<rparr>)"
    by (simp add: newWalletSynchronizer_def)
  have busy: "fetchingBlocks
      ((newWalletSynchronizer 7 0 1000 (newSynchronizationStatus 0))
         \<lparr>synchronizationStatus :=
            storeBlockHash 2 ''b'' (storeBlockHash 1 ''a'' (newSynchronizationStatus 0)),
          fetchingBlocks := True\<rparr>)"
    by simp
  have queued: "finishedFunc (snd (rewind 3
      ((newWalletSynchronizer 7 0 1000 (newSynchronizationStatus 0))
         \<lparr>synchronizationStatus :=
            storeBlockHash 2 ''b'' (storeBlockHash 1 ''a'' (newSynchronizationStatus 0)),
          fetchingBlocks := True\<rparr>))) = Some (RewindLater 3)"
    by (simp add: rewind_def)
  have other: "(Inr ([\<lparr>blockHeight = 3, blockHash = ''c'', blockTimestamp = 0\<rparr>], Flag True) :: jserror + block list \<times> syncTop) = Inl DeserializeError
      \<or> (Inr ([\<lparr>blockHeight = 3, blockHash = ''c'', blockTimestamp = 0\<rparr>], Flag True) :: jserror + block list \<times> syncTop) = Inr ([], Flag True)
      \<or> (Inr ([\<lparr>blockHeight = 3, blockHash = ''c'', blockTimestamp = 0\<rparr>], Flag True) :: jserror + block list \<times> syncTop) = Inr (\<lparr>blockHeight = 3, blockHash = ''c'', blockTimestamp = 0\<rparr> # [], Flag True)"
    by simp
  have a: "lastKnownBlockHashes (synchronizationStatus (snd (rewind 3
      ((newWalletSynchronizer 7 0 1000 (newSynchronizationStatus 0))
         \<lparr>synchronizationStatus :=
            storeBlockHash 2 ''b'' (storeBlockHash 1 ''a'' (newSynchronizationStatus 0))\<rparr>)))) = []
   \<and> startTimestamp (snd (rewind 3
      ((newWalletSynchronizer 7 0 1000 (newSynchronizationStatus 0))
         \<lparr>synchronizationStatus :=
            storeBlockHash 2 ''b'' (storeBlockHash 1 ''a'' (newSynchronizationStatus 0))\<rparr>))) = 0"
    using idle C4_rewind_discards_history [of
      "((newWalletSynchronizer 7 0 1000 (newSynchronizationStatus 0))
         \<lparr>synchronizationStatus :=
            storeBlockHash 2 ''b'' (storeBlockHash 1 ''a'' (newSynchronizationStatus 0))\<rparr>)" 3 0]
    by simp
  have b: "\<not> fst (rewind 3
      ((newWalletSynchronizer 7 0 1000 (newSynchronizationStatus 0))
         \<lparr>synchronizationStatus :=
            storeBlockHash 2 ''b'' (storeBlockHash 1 ''a'' (newSynchronizationStatus 0)),
          fetchingBlocks := True\<rparr>))"
    using busy C4_rewind_discards_history [of
      "((newWalletSynchronizer 7 0 1000 (newSynchronizationStatus 0))
         \<lparr>synchronizationStatus :=
            storeBlockHash 2 ''b'' (storeBlockHash 1 ''a'' (newSynchronizationStatus 0)),
          fetchingBlocks := True\<rparr>)" 3 0]
    by simp
  have c: "lastKnownBlockHashes (synchronizationStatus (snd (snd (downloadBlocks_resume
        (Inr ([\<lparr>blockHeight = 3, blockHash = ''c'', blockTimestamp = 0\<rparr>], Flag True))
        (snd (rewind 3
      ((newWalletSynchronizer 7 0 1000 (newSynchronizationStatus 0))
         \<lparr>synchronizationStatus :=
            storeBlockHash 2 ''b'' (storeBlockHash 1 ''a'' (newSynchronizationStatus 0)),
          fetchingBlocks := True\<rparr>))))))) = []
   \<and> getHeight (snd (snd (downloadBlocks_resume
        (Inr ([\<lparr>blockHeight = 3, blockHash = ''c'', blockTimestamp = 0\<rparr>], Flag True))
        (snd (rewind 3
      ((newWalletSynchronizer 7 0 1000 (newSynchronizationStatus 0))
         \<lparr>synchronizationStatus :=
            storeBlockHash 2 ''b'' (storeBlockHash 1 ''a'' (newSynchronizationStatus 0)),
          fetchingBlocks := True\<rparr>)))))) = 2"
  proof -
    have "snd (snd (downloadBlocks_resume
        (Inr ([\<lparr>blockHeight = 3, blockHash = ''c'', blockTimestamp = 0\<rparr>], Flag True))
        (snd (rewind 3
      ((newWalletSynchronizer 7 0 1000 (newSynchronizationStatus 0))
         \<lparr>synchronizationStatus :=
            storeBlockHash 2 ''b'' (storeBlockHash 1 ''a'' (newSynchronizationStatus 0)),
          fetchingBlocks := True\<rparr>))))) =
      (snd (rewind 3
      ((newWalletSynchronizer 7 0 1000 (newSynchronizationStatus 0))
         \<lparr>synchronizationStatus :=
            storeBlockHash 2 ''b'' (storeBlockHash 1 ''a'' (newSynchronizationStatus 0)),
          fetchingBlocks := True\<rparr>)))
       \<lparr>startHeight := 3, startTimestamp := 0,
        synchronizationStatus :=
          \<lparr>blockHashCheckpoints = [], lastKnownBlockHashes = [],
           lastKnownBlockHeight = 3 - 1, lastSavedCheckpointAt = 0\<rparr>,
        storedBlocks := [], finishedFunc := None, fetchingBlocks := False\<rparr>"
      using queued other C4_rewind_discards_history [of
        "((newWalletSynchronizer 7 0 1000 (newSynchronizationStatus 0))
         \<lparr>synchronizationStatus :=
            storeBlockHash 2 ''b'' (storeBlockHash 1 ''a'' (newSynchronizationStatus 0)),
          fetchingBlocks := True\<rparr>)" 3 0
        "snd (rewind 3
      ((newWalletSynchronizer 7 0 1000 (newSynchronizationStatus 0))
         \<lparr>synchronizationStatus :=
            storeBlockHash 2 ''b'' (storeBlockHash 1 ''a'' (newSynchronizationStatus 0)),
          fetchingBlocks := True\<rparr>))"
        "Inr ([\<lparr>blockHeight = 3, blockHash = ''c'', blockTimestamp = 0\<rparr>], Flag True)" DeserializeError True "\<lparr>blockHeight = 3, blockHash = ''c'', blockTimestamp = 0\<rparr>" "[]" "Flag True"]
      by blast
    then show ?thesis by (simp add: getHeight_def)
  qed
  from a b c show ?thesis by simp
qed

text \<open>
  The hashes of the blocks at heights 1 and 2 are recorded; after \<open>rewind(3)\<close> the hash of
  block 1 is no longer in the status.
\<close>

theorem C4_history_counterexample:
  "''a'' \<in> set (lastKnownBlockHashes (synchronizationStatus
      ((newWalletSynchronizer 0 0 1000 (newSynchronizationStatus 0))
         \<lparr>synchronizationStatus :=
            storeBlockHash 2 ''b'' (storeBlockHash 1 ''a'' (newSynchronizationStatus 0))\<rparr>)))
   \<and> ''a'' \<notin> set (lastKnownBlockHashes (synchronizationStatus (snd (rewind 3
      ((newWalletSynchronizer 0 0 1000 (newSynchronizationStatus 0))
         \<lparr>synchronizationStatus :=
            storeBlockHash 2 ''b'' (storeBlockHash 1 ''a'' (newSynchronizationStatus 0))\<rparr>)))))"
  by (simp add: rewind_def rewindNow_def newWalletSynchronizer_def newSynchronizationStatus_def
      storeBlockHash_def LAST_KNOWN_BLOCK_HASHES_SIZE_def BLOCK_HASH_CHECKPOINTS_INTERVAL_def Let_def)

text \<open>
  A reset queued while a download is in flight. Whatever the download brings except the
  "synced" answer (no blocks, a top block), the reset is the last thing to touch the
  status; on the "synced" answer the queued reset runs first and the top block is stored
  into the status after it.
\<close>

lemma reset_while_fetching:
  "fetchingBlocks s \<Longrightarrow>
   reset scanHeight scanTimestamp s = (False, s\<lparr>finishedFunc := Some (ResetLater scanHeight scanTimestamp)\<rparr>)"
  by (simp add: reset_def)

lemma resume_pending_reset_blocks:
  assumes "finishedFunc s = Some (ResetLater scanHeight scanTimestamp)"
    and "answer = Inl err \<or> answer = Inr ([], Flag b) \<or> answer = Inr (first # others, topB)"
  shows "storedBlocks (snd (snd (downloadBlocks_resume answer s))) = []
       \<and> getHeight (snd (snd (downloadBlocks_resume answer s))) = scanHeight - 1
       \<and> lastKnownBlockHashes (synchronizationStatus (snd (snd (downloadBlocks_resume answer s)))) = []
       \<and> finishedFunc (snd (snd (downloadBlocks_resume answer s))) = None
       \<and> \<not> fetchingBlocks (snd (snd (downloadBlocks_resume answer s)))"
  using assms
  by (auto simp add: downloadBlocks_resume_def runFinishedFunc_def resetNow_def getHeight_def
      newSynchronizationStatus_def Let_def)

lemma resume_pending_reset_synced:
  assumes "finishedFunc s = Some (ResetLater scanHeight scanTimestamp)"
  shows "getHeight (snd (snd (downloadBlocks_resume (Inr ([], Top t)) s))) = topHeight t
       \<and> lastKnownBlockHashes (synchronizationStatus
            (snd (snd (downloadBlocks_resume (Inr ([], Top t)) s)))) = [topHash t]
       \<and> finishedFunc (snd (snd (downloadBlocks_resume (Inr ([], Top t)) s))) = None"
  using assms
  by (simp add: downloadBlocks_resume_def runFinishedFunc_def resetNow_def getHeight_def
      newSynchronizationStatus_def storeBlockHash_def LAST_KNOWN_BLOCK_HASHES_SIZE_def Let_def)

text \<open>
  C5. A \<open>reset(1000, 0)\<close> is called while a download is in flight, so it is queued; the
  download then resolves with no blocks and the top block of height 5000. The queued
  reset has run (its promise is resolved), yet the height of the synchronization status
  is 5000 and not 999, and the hash of the top block is in the status.
\<close>

theorem C5_reset_in_flight_synced_answer:
  "downloadBlocks_begin (newDaemon False None 100)
      (newWalletSynchronizer 0 0 1000 (newSynchronizationStatus 0)) =
     (None, (newWalletSynchronizer 0 0 1000 (newSynchronizationStatus 0))\<lparr>fetchingBlocks := True\<rparr>)
   \<and> fst (reset 1000 0
        ((newWalletSynchronizer 0 0 1000 (newSynchronizationStatus 0))\<lparr>fetchingBlocks := True\<rparr>)) = False
   \<and> finishedFunc (snd (snd (downloadBlocks_resume
        (Inr ([], Top \<lparr>topHeight = 5000, topHash = ''T''\<rparr>))
        (snd (reset 1000 0
          ((newWalletSynchronizer 0 0 1000 (newSynchronizationStatus 0))\<lparr>fetchingBlocks := True\<rparr>)))))) = None
   \<and> getHeight (snd (snd (downloadBlocks_resume
        (Inr ([], Top \<lparr>topHeight = 5000, topHash = ''T''\<rparr>))
        (snd (reset 1000 0
          ((newWalletSynchronizer 0 0 1000 (newSynchronizationStatus 0))\<lparr>fetchingBlocks := True\<rparr>)))))) = 5000
   \<and> lastKnownBlockHashes (synchronizationStatus (snd (snd (downloadBlocks_resume
        (Inr ([], Top \<lparr>topHeight = 5000, topHash = ''T''\<rparr>))
        (snd (reset 1000 0
          ((newWalletSynchronizer 0 0 1000 (newSynchronizationStatus 0))\<lparr>fetchingBlocks := True\<rparr>))))))) = [''T'']"
  by (simp add: downloadBlocks_begin_def downloadBlocks_resume_def reset_def runFinishedFunc_def
      resetNow_def newDaemon_def newWalletSynchronizer_def newSynchronizationStatus_def
      getLocalDaemonBlockCount_def getHeight_def jsLess_def storeBlockHash_def
      LAST_KNOWN_BLOCK_HASHES_SIZE_def BLOCK_HASH_CHECKPOINTS_INTERVAL_def Let_def)

section \<open>Cancelled transactions\<close>

lemma updateFailCounts_kept_keys:
  "k \<in> fst ` set (snd (updateFailCounts cancelled entries)) \<Longrightarrow> k \<in> fst ` set entries"
proof (induction entries)
  case Nil
  then show ?case by simp
next
  case (Cons e entries)
  obtain hash failCount where e: "e = (hash, failCount)" by (cases e)
  obtain toRemove kept where u: "updateFailCounts cancelled entries = (toRemove, kept)"
    by (cases "updateFailCounts cancelled entries") auto
  from Cons.prems have "k = hash \<or> k \<in> fst ` set kept"
    unfolding e by (auto simp add: u split: if_splits)
  then show ?case using Cons.IH u e by auto
qed

lemma updateFailCounts_distinct:
  "distinct (map fst entries) \<Longrightarrow> distinct (map fst (snd (updateFailCounts cancelled entries)))"
proof (induction entries)
  case Nil
  then show ?case by simp
next
  case (Cons e entries)
  obtain hash failCount where e: "e = (hash, failCount)" by (cases e)
  obtain toRemove kept where u: "updateFailCounts cancelled entries = (toRemove, kept)"
    by (cases "updateFailCounts cancelled entries") auto
  have "hash \<notin> fst ` set entries" using Cons.prems e by auto
  then have "hash \<notin> fst ` set kept"
    using updateFailCounts_kept_keys [of hash cancelled entries] u by auto
  moreover have "distinct (map fst kept)" using Cons u by simp
  ultimately show ?case unfolding e by (simp add: u)
qed

lemma updateFailCounts_lookup:
  "distinct (map fst entries) \<Longrightarrow>
   map_of (snd (updateFailCounts cancelled entries)) h =
     (case map_of entries h of
        None \<Rightarrow> None
      | Some n \<Rightarrow> if h \<in> set cancelled \<and> n \<noteq> 10 then Some (Suc n) else None)"
proof (induction entries)
  case Nil
  then show ?case by simp
next
  case (Cons e entries)
  obtain hash failCount where e: "e = (hash, failCount)" by (cases e)
  obtain toRemove kept where u: "updateFailCounts cancelled entries = (toRemove, kept)"
    by (cases "updateFailCounts cancelled entries") auto
  have "hash \<notin> fst ` set entries" using Cons.prems e by auto
  then have "hash \<notin> fst ` set kept"
    using updateFailCounts_kept_keys [of hash cancelled entries] u by auto
  then have none: "map_of kept hash = None"
    by (simp add: map_of_eq_None_iff)
  have IH: "map_of kept h =
     (case map_of entries h of
        None \<Rightarrow> None
      | Some n \<Rightarrow> if h \<in> set cancelled \<and> n \<noteq> 10 then Some (Suc n) else None)"
    using Cons u by simp
  show ?case
  proof (cases "h = hash")
    case True
    then show ?thesis unfolding e by (simp add: u none)
  next
    case False
    then show ?thesis unfolding e by (simp add: u IH)
  qed
qed

lemma updateFailCounts_removed:
  "distinct (map fst entries) \<Longrightarrow>
   h \<in> set (fst (updateFailCounts cancelled entries)) \<longleftrightarrow>
     h \<in> set cancelled \<and> map_of entries h = Some 10"
proof (induction entries)
  case Nil
  then show ?case by simp
next
  case (Cons e entries)
  obtain hash failCount where e: "e = (hash, failCount)" by (cases e)
  obtain toRemove kept where u: "updateFailCounts cancelled entries = (toRemove, kept)"
    by (cases "updateFailCounts cancelled entries") auto
  have "hash \<notin> fst ` set entries" using Cons.prems e by auto
  then have none: "map_of entries hash = None" by (simp add: map_of_eq_None_iff)
  have IH: "h \<in> set toRemove \<longleftrightarrow> h \<in> set cancelled \<and> map_of entries h = Some 10"
    using Cons u by simp
  show ?case
  proof (cases "h = hash")
    case True
    then show ?thesis unfolding e using IH none by (simp add: u)
  next
    case False
    then show ?thesis unfolding e using IH by (simp add: u)
  qed
qed

lemma addFirstFails_distinct:
  "distinct (map fst entries) \<Longrightarrow> distinct (map fst (addFirstFails cancelled entries))"
  by (induction cancelled arbitrary: entries) auto

lemma addFirstFails_lookup:
  "map_of (addFirstFails cancelled entries) h =
     (case map_of entries h of
        Some n \<Rightarrow> Some n
      | None \<Rightarrow> if h \<in> set cancelled then Some 1 else None)"
proof (induction cancelled arbitrary: entries)
  case Nil
  then show ?case by (simp split: option.splits)
next
  case (Cons hash cancelled)
  show ?case
  proof (cases "hash \<in> fst ` set entries")
    case True
    then have "map_of entries hash \<noteq> None" by (simp add: map_of_eq_None_iff)
    then show ?thesis using True Cons.IH [of entries] by (auto split: option.splits)
  next
    case False
    then have none: "map_of entries hash = None" by (simp add: map_of_eq_None_iff)
    have "map_of (entries @ [(hash, 1)]) h =
            (case map_of entries h of Some n \<Rightarrow> Some n | None \<Rightarrow> if h = hash then Some 1 else None)"
      by (simp add: map_add_def split: option.splits)
    then show ?thesis
      using False none Cons.IH [of "entries @ [(hash, 1)]"] by (auto split: option.splits)
  qed
qed


lemma find_step_count:
  assumes "distinct (map fst (cancelledTransactionsFailCount s))" and "txs \<noteq> []"
  shows "map_of (cancelledTransactionsFailCount (snd (findCancelledTransactions txs cancelled s))) h =
     (if h \<in> set cancelled
      then Some (case map_of (cancelledTransactionsFailCount s) h of
                   None \<Rightarrow> 1 | Some n \<Rightarrow> if n = 10 then 1 else Suc n)
      else None)"
proof -
  obtain toRemove kept where u: "updateFailCounts cancelled (cancelledTransactionsFailCount s) = (toRemove, kept)"
    by (cases "updateFailCounts cancelled (cancelledTransactionsFailCount s)") auto
  have kept: "map_of kept h =
     (case map_of (cancelledTransactionsFailCount s) h of
        None \<Rightarrow> None
      | Some n \<Rightarrow> if h \<in> set cancelled \<and> n \<noteq> 10 then Some (Suc n) else None)"
    using updateFailCounts_lookup [OF assms(1), of cancelled h] u by simp
  have after: "cancelledTransactionsFailCount (snd (findCancelledTransactions txs cancelled s)) =
      addFirstFails cancelled kept"
    using assms(2) u by (simp add: findCancelledTransactions_def)
  show ?thesis
    unfolding after addFirstFails_lookup kept
    by (cases "map_of (cancelledTransactionsFailCount s) h") simp_all
qed

lemma find_step_distinct:
  assumes "distinct (map fst (cancelledTransactionsFailCount s))"
  shows "distinct (map fst (cancelledTransactionsFailCount (snd (findCancelledTransactions txs cancelled s))))"
proof -
  obtain toRemove kept where u: "updateFailCounts cancelled (cancelledTransactionsFailCount s) = (toRemove, kept)"
    by (cases "updateFailCounts cancelled (cancelledTransactionsFailCount s)") auto
  have "distinct (map fst kept)"
    using updateFailCounts_distinct [OF assms, of cancelled] u by simp
  then have "distinct (map fst (addFirstFails cancelled kept))"
    by (rule addFirstFails_distinct)
  then show ?thesis
    using assms u by (simp add: findCancelledTransactions_def)
qed

lemma find_step_removed:
  assumes "distinct (map fst (cancelledTransactionsFailCount s))" and "txs \<noteq> []"
  shows "h \<in> set (fst (findCancelledTransactions txs cancelled s)) \<longleftrightarrow>
           h \<in> set cancelled \<and> map_of (cancelledTransactionsFailCount s) h = Some 10"
proof -
  obtain toRemove kept where u: "updateFailCounts cancelled (cancelledTransactionsFailCount s) = (toRemove, kept)"
    by (cases "updateFailCounts cancelled (cancelledTransactionsFailCount s)") auto
  have "fst (findCancelledTransactions txs cancelled s) = toRemove"
    using assms(2) u by (simp add: findCancelledTransactions_def)
  then show ?thesis
    using updateFailCounts_removed [OF assms(1), of h cancelled] u by simp
qed

lemma afterChecks_snoc:
  "afterChecks (calls @ [(txs, cancelled)]) s =
     snd (findCancelledTransactions txs cancelled (afterChecks calls s))"
  by (induction calls arbitrary: s) auto

lemma missingRun_snoc:
  "missingRun h (calls @ [call]) = (if h \<in> set (snd call) then Suc (missingRun h calls) else 0)"
  by (simp add: missingRun_def)


lemma run_count_step:
  "(if r mod 10 + 1 = 10 then 1 else Suc (r mod 10 + 1)) = Suc r mod 10 + (1::nat)"
  by (simp add: mod_Suc)

lemma run_threshold:
  "(r \<noteq> 0 \<and> (r - 1) mod 10 + 1 = (10::nat)) \<longleftrightarrow> (11 \<le> Suc r \<and> Suc r mod 10 = 1)"
proof (cases r)
  case 0
  then show ?thesis by simp
next
  case (Suc q)
  have "q mod 10 = 9 \<longleftrightarrow> Suc (Suc q) mod 10 = 1"
    by presburger
  moreover have "Suc (Suc q) mod 10 = 1 \<Longrightarrow> 9 \<le> q"
    by presburger
  ultimately show ?thesis using Suc by auto
qed

lemma afterChecks_invariant:
  assumes "cancelledTransactionsFailCount s = []"
    and "\<forall>call \<in> set calls. fst call \<noteq> []"
  shows "distinct (map fst (cancelledTransactionsFailCount (afterChecks calls s)))
       \<and> map_of (cancelledTransactionsFailCount (afterChecks calls s)) h =
           (if missingRun h calls = 0 then None
            else Some ((missingRun h calls - 1) mod 10 + 1))"
  using assms(2)
proof (induction calls rule: rev_induct)
  case Nil
  then show ?case using assms(1) by (simp add: missingRun_def)
next
  case (snoc call calls)
  obtain txs cancelled where call: "call = (txs, cancelled)" by (cases call)
  have txs: "txs \<noteq> []" using snoc.prems call by simp
  have prems: "\<forall>call \<in> set calls. fst call \<noteq> []" using snoc.prems by simp
  have IH1: "distinct (map fst (cancelledTransactionsFailCount (afterChecks calls s)))"
    using snoc.IH [OF prems] by simp
  have IH2: "map_of (cancelledTransactionsFailCount (afterChecks calls s)) h =
           (if missingRun h calls = 0 then None
            else Some ((missingRun h calls - 1) mod 10 + 1))"
    using snoc.IH [OF prems] by simp
  have d: "distinct (map fst (cancelledTransactionsFailCount (afterChecks (calls @ [call]) s)))"
    unfolding call afterChecks_snoc by (rule find_step_distinct [OF IH1])
  have step: "map_of (cancelledTransactionsFailCount (afterChecks (calls @ [call]) s)) h =
     (if h \<in> set cancelled
      then Some (case map_of (cancelledTransactionsFailCount (afterChecks calls s)) h of
                   None \<Rightarrow> 1 | Some n \<Rightarrow> if n = 10 then 1 else Suc n)
      else None)"
    unfolding call afterChecks_snoc by (rule find_step_count [OF IH1 txs])
  have run: "missingRun h (calls @ [call]) = (if h \<in> set cancelled then Suc (missingRun h calls) else 0)"
    unfolding call by (simp add: missingRun_snoc)
  have c: "map_of (cancelledTransactionsFailCount (afterChecks (calls @ [call]) s)) h =
           (if missingRun h (calls @ [call]) = 0 then None
            else Some ((missingRun h (calls @ [call]) - 1) mod 10 + 1))"
  proof (cases "h \<in> set cancelled")
    case False
    then show ?thesis unfolding step run by simp
  next
    case True
    show ?thesis
    proof (cases "missingRun h calls")
      case 0
      then show ?thesis unfolding step run IH2 using True by simp
    next
      case (Suc r)
      show ?thesis unfolding step run IH2 using True Suc by (simp add: mod_Suc)
    qed
  qed
  from d c show ?case by simp
qed


text \<open>
  C1 (as amended). Starting with no failure counts, over calls of
  \<open>findCancelledTransactions\<close> that all ask about the hash \<open>h\<close>: a call returns \<open>h\<close> in
  its list to remove if and only if its answer is the 11th (or the 21st, the 31st, ...)
  answer in a row that reports \<open>h\<close> as not found. After a call that reports \<open>h\<close> as not
  found the count of \<open>h\<close> is the number of such answers in a row before it, modulo 10,
  plus one: 1 for a hash not reported before; after a call that finds \<open>h\<close> there is no
  count for it.
\<close>

theorem C1_cancellation_threshold:
  assumes "cancelledTransactionsFailCount s = []"
    and "\<forall>call \<in> set calls. h \<in> set (fst call)"
    and "h \<in> set txs"
  shows "(h \<in> set (fst (findCancelledTransactions txs cancelled (afterChecks calls s))) \<longleftrightarrow>
            11 \<le> missingRun h (calls @ [(txs, cancelled)])
            \<and> missingRun h (calls @ [(txs, cancelled)]) mod 10 = 1)
       \<and> map_of (cancelledTransactionsFailCount (afterChecks (calls @ [(txs, cancelled)]) s)) h =
           (if h \<in> set cancelled then Some (missingRun h calls mod 10 + 1) else None)"
proof -
  have ne: "\<forall>call \<in> set calls. fst call \<noteq> []" using assms(2) by auto
  have txs: "txs \<noteq> []" using assms(3) by auto
  have d: "distinct (map fst (cancelledTransactionsFailCount (afterChecks calls s)))"
    using afterChecks_invariant [OF assms(1) ne, of h] by simp
  have count: "map_of (cancelledTransactionsFailCount (afterChecks calls s)) h =
           (if missingRun h calls = 0 then None
            else Some ((missingRun h calls - 1) mod 10 + 1))"
    using afterChecks_invariant [OF assms(1) ne, of h] by simp
  have run: "missingRun h (calls @ [(txs, cancelled)]) =
      (if h \<in> set cancelled then Suc (missingRun h calls) else 0)"
    by (simp add: missingRun_snoc)
  have "h \<in> set (fst (findCancelledTransactions txs cancelled (afterChecks calls s))) \<longleftrightarrow>
      h \<in> set cancelled \<and> (missingRun h calls \<noteq> 0 \<and> (missingRun h calls - 1) mod 10 + 1 = 10)"
    unfolding find_step_removed [OF d txs] count by simp
  also have "\<dots> \<longleftrightarrow> h \<in> set cancelled
      \<and> (11 \<le> Suc (missingRun h calls) \<and> Suc (missingRun h calls) mod 10 = 1)"
    unfolding run_threshold ..
  also have "\<dots> \<longleftrightarrow> 11 \<le> missingRun h (calls @ [(txs, cancelled)])
            \<and> missingRun h (calls @ [(txs, cancelled)]) mod 10 = 1"
    unfolding run by simp
  finally have first: "h \<in> set (fst (findCancelledTransactions txs cancelled (afterChecks calls s))) \<longleftrightarrow>
            11 \<le> missingRun h (calls @ [(txs, cancelled)])
            \<and> missingRun h (calls @ [(txs, cancelled)]) mod 10 = 1" .
  have "map_of (cancelledTransactionsFailCount (afterChecks (calls @ [(txs, cancelled)]) s)) h =
     (if h \<in> set cancelled
      then Some (case map_of (cancelledTransactionsFailCount (afterChecks calls s)) h of
                   None \<Rightarrow> 1 | Some n \<Rightarrow> if n = 10 then 1 else Suc n)
      else None)"
    unfolding afterChecks_snoc by (rule find_step_count [OF d txs])
  also have "\<dots> = (if h \<in> set cancelled then Some (missingRun h calls mod 10 + 1) else None)"
  proof (cases "missingRun h calls")
    case 0
    then show ?thesis unfolding count by simp
  next
    case (Suc r)
    then show ?thesis unfolding count by (simp add: mod_Suc)
  qed
  finally have second:
    "map_of (cancelledTransactionsFailCount (afterChecks (calls @ [(txs, cancelled)]) s)) h =
       (if h \<in> set cancelled then Some (missingRun h calls mod 10 + 1) else None)" .
  from first second show ?thesis by (rule conjI)
qed

theorem C1_cancellation_threshold_witness:
  "''h'' \<in> set (fst (findCancelledTransactions [''h''] [''h'']
      (afterChecks (replicate 10 ([''h''], [''h'']))
         (newWalletSynchronizer 0 0 1000 (newSynchronizationStatus 0)))))"
proof -
  have a: "cancelledTransactionsFailCount (newWalletSynchronizer 0 0 1000 (newSynchronizationStatus 0)) = []"
    by (simp add: newWalletSynchronizer_def)
  have b: "\<forall>call \<in> set (replicate 10 ([''h''], [''h''])). ''h'' \<in> set (fst call)"
    by simp
  have c: "''h'' \<in> set [''h'']" by simp
  have run: "missingRun ''h'' (replicate 10 ([''h''], [''h'']) @ [([''h''], [''h''])]) = 11"
    by (simp add: missingRun_def takeWhile_replicate)
  from C1_cancellation_threshold [OF a b c, of "[''h'']"] run
  show ?thesis by simp
qed

text \<open>
  Ten answers in a row report \<open>h\<close> as not found: the tenth call does not return \<open>h\<close>; it
  leaves the count at 10.
\<close>

theorem C1_tenth_response_counterexample:
  "''h'' \<notin> set (fst (findCancelledTransactions [''h''] [''h'']
      (afterChecks (replicate 9 ([''h''], [''h'']))
         (newWalletSynchronizer 0 0 1000 (newSynchronizationStatus 0)))))
   \<and> map_of (cancelledTransactionsFailCount (afterChecks (replicate 10 ([''h''], [''h'']))
         (newWalletSynchronizer 0 0 1000 (newSynchronizationStatus 0)))) ''h'' = Some 10"
  by (simp add: eval_nat_numeral findCancelledTransactions_def newWalletSynchronizer_def)

section \<open>Dropping a processed block\<close>

lemma downloadBlocks_begin_storedBlocks:
  "storedBlocks (snd (downloadBlocks_begin d s)) = storedBlocks s"
  by (simp add: downloadBlocks_begin_def Let_def)

lemma downloadBlocks_begin_status:
  "synchronizationStatus (snd (downloadBlocks_begin d s)) = synchronizationStatus s"
  by (simp add: downloadBlocks_begin_def Let_def)

lemma dropBlock_storedBlocks:
  "storedBlocks (dropBlock sizeof d bHeight bHash s) =
     (if frontMatches bHeight bHash (storedBlocks s) then tl (storedBlocks s) else storedBlocks s)"
  by (simp add: dropBlock_def frontMatches_def downloadBlocks_begin_storedBlocks Let_def
      split: list.splits)

lemma dropBlock_status:
  "synchronizationStatus (dropBlock sizeof d bHeight bHash s) =
     (if frontMatches bHeight bHash (storedBlocks s)
      then storeBlockHash bHeight bHash (synchronizationStatus s)
      else synchronizationStatus s)"
  by (simp add: dropBlock_def frontMatches_def downloadBlocks_begin_status Let_def
      split: list.splits)

text \<open>
  C6 (as amended). \<open>dropBlock(height, hash)\<close> removes the front block and records
  (height, hash) into the synchronization status if and only if the queue is not empty
  and its front block has that height and that hash; otherwise it leaves both as they
  are. Called twice in succession with the same arguments, the second call changes
  neither the queue nor the status, provided the block that is at the front after the
  first call is not one more block of that height and hash.
\<close>

theorem C6_dropBlock_front_guard:
  "storedBlocks (dropBlock sizeof d bHeight bHash s) =
     (if frontMatches bHeight bHash (storedBlocks s) then tl (storedBlocks s) else storedBlocks s)
   \<and> synchronizationStatus (dropBlock sizeof d bHeight bHash s) =
     (if frontMatches bHeight bHash (storedBlocks s)
      then storeBlockHash bHeight bHash (synchronizationStatus s)
      else synchronizationStatus s)
   \<and> (\<not> frontMatches bHeight bHash (storedBlocks (dropBlock sizeof d bHeight bHash s)) \<longrightarrow>
        storedBlocks (dropBlock sizeof d' bHeight bHash (dropBlock sizeof d bHeight bHash s)) =
          storedBlocks (dropBlock sizeof d bHeight bHash s)
        \<and> synchronizationStatus (dropBlock sizeof d' bHeight bHash (dropBlock sizeof d bHeight bHash s)) =
          synchronizationStatus (dropBlock sizeof d bHeight bHash s))"
  by (simp add: dropBlock_storedBlocks dropBlock_status)



theorem C6_dropBlock_front_guard_witness:
  "storedBlocks (dropBlock blocksSize (newDaemon False None 100) 7 ''aa''
     (dropBlock blocksSize (newDaemon False None 100) 7 ''aa''
       ((newWalletSynchronizer 0 0 1000 (newSynchronizationStatus 6))
          \<lparr>storedBlocks := [\<lparr>blockHeight = 7, blockHash = ''aa'', blockTimestamp = 0\<rparr>,
                            \<lparr>blockHeight = 8, blockHash = ''bb'', blockTimestamp = 0\<rparr>]\<rparr>))) =
   [\<lparr>blockHeight = 8, blockHash = ''bb'', blockTimestamp = 0\<rparr>]"
proof -
  have "\<not> frontMatches 7 ''aa'' (storedBlocks (dropBlock blocksSize (newDaemon False None 100) 7 ''aa''
       ((newWalletSynchronizer 0 0 1000 (newSynchronizationStatus 6))
          \<lparr>storedBlocks := [\<lparr>blockHeight = 7, blockHash = ''aa'', blockTimestamp = 0\<rparr>,
                            \<lparr>blockHeight = 8, blockHash = ''bb'', blockTimestamp = 0\<rparr>]\<rparr>)))"
    by (simp add: dropBlock_def frontMatches_def blocksSize_def shouldFetchMoreBlocks_def)
  with C6_dropBlock_front_guard [of blocksSize "newDaemon False None 100" 7 "''aa''"
      "(newWalletSynchronizer 0 0 1000 (newSynchronizationStatus 6))
          \<lparr>storedBlocks := [\<lparr>blockHeight = 7, blockHash = ''aa'', blockTimestamp = 0\<rparr>,
                            \<lparr>blockHeight = 8, blockHash = ''bb'', blockTimestamp = 0\<rparr>]\<rparr>"
      "newDaemon False None 100"]
  show ?thesis by (simp add: frontMatches_def)
qed

text \<open>
  A queue that begins with the same block twice: the second call removes a block too.
\<close>

theorem C6_duplicate_front_counterexample:
  "storedBlocks (dropBlock blocksSize (newDaemon False None 100) 7 ''aa''
     (dropBlock blocksSize (newDaemon False None 100) 7 ''aa''
       ((newWalletSynchronizer 0 0 1000 (newSynchronizationStatus 6))
          \<lparr>storedBlocks := [\<lparr>blockHeight = 7, blockHash = ''aa'', blockTimestamp = 0\<rparr>,
                            \<lparr>blockHeight = 7, blockHash = ''aa'', blockTimestamp = 0\<rparr>]\<rparr>)))
   \<noteq> storedBlocks (dropBlock blocksSize (newDaemon False None 100) 7 ''aa''
       ((newWalletSynchronizer 0 0 1000 (newSynchronizationStatus 6))
          \<lparr>storedBlocks := [\<lparr>blockHeight = 7, blockHash = ''aa'', blockTimestamp = 0\<rparr>,
                            \<lparr>blockHeight = 7, blockHash = ''aa'', blockTimestamp = 0\<rparr>]\<rparr>))"
  by (simp add: dropBlock_def blocksSize_def shouldFetchMoreBlocks_def)

section \<open>Properties of the unlock rule and the balance\<close>

lemma inputsBalance_unlocked:
  "fst (inputsBalance m now h inputs) =
     sum_list (map amount (filter (\<lambda>i. isInputUnlocked m now (unlockTime i) h) inputs))"
  by (induction inputs) (auto split: prod.splits)

lemma inputsBalance_total:
  "fst (inputsBalance m now h inputs) + snd (inputsBalance m now h inputs) =
     sum_list (map amount inputs)"
  by (induction inputs) (auto split: prod.splits)

text \<open>
  C7. \<open>isInputUnlocked\<close> is true exactly when the unlock time is 0, or it is at least
  \<open>MAX_BLOCK_NUMBER\<close> and the clock in seconds has reached it, or it is below
  \<open>MAX_BLOCK_NUMBER\<close> and the current height plus one has reached it. The unlocked
  balance is the sum of the amounts of the unspent inputs that satisfy this predicate,
  and unlocked plus locked is the total of the unspent inputs (on \<open>getBalance\<close> as the
  spec describes it).
\<close>

theorem C7_unlock_rule_and_balance:
  "isInputUnlocked maxBlockNumber nowMs unlock currentHeight =
     (unlock = 0
      \<or> (unlock \<ge> maxBlockNumber \<and> nowMs div 1000 \<ge> unlock)
      \<or> (unlock < maxBlockNumber \<and> currentHeight + 1 \<ge> unlock))
   \<and> fst (getBalance maxBlockNumber nowMs currentHeight keys wallets) =
       sum_list (map amount
         (filter (\<lambda>i. isInputUnlocked maxBlockNumber nowMs (unlockTime i) currentHeight)
            (unspentOf keys wallets)))
   \<and> fst (getBalance maxBlockNumber nowMs currentHeight keys wallets)
       + snd (getBalance maxBlockNumber nowMs currentHeight keys wallets) =
       sum_list (map amount (unspentOf keys wallets))"
proof (intro conjI)
  show "isInputUnlocked maxBlockNumber nowMs unlock currentHeight =
     (unlock = 0
      \<or> (unlock \<ge> maxBlockNumber \<and> nowMs div 1000 \<ge> unlock)
      \<or> (unlock < maxBlockNumber \<and> currentHeight + 1 \<ge> unlock))"
    by (auto simp add: isInputUnlocked_def)
  show "fst (getBalance maxBlockNumber nowMs currentHeight keys wallets) =
       sum_list (map amount
         (filter (\<lambda>i. isInputUnlocked maxBlockNumber nowMs (unlockTime i) currentHeight)
            (unspentOf keys wallets)))"
    unfolding getBalance_def by (rule inputsBalance_unlocked)
  show "fst (getBalance maxBlockNumber nowMs currentHeight keys wallets)
       + snd (getBalance maxBlockNumber nowMs currentHeight keys wallets) =
       sum_list (map amount (unspentOf keys wallets))"
    unfolding getBalance_def by (rule inputsBalance_total)
qed

theorem C7_unlock_rule_and_balance_witness:
  "isInputUnlocked 500000000 0 100000 99999
   \<and> \<not> isInputUnlocked 500000000 0 100000 5
   \<and> getBalance 500000000 0 9 [''k'']
        [\<lparr>publicSpendKey = ''k'',
          unspentInputs = [\<lparr>keyImage = ''i'', amount = 5, unlockTime = 0\<rparr>,
                           \<lparr>keyImage = ''j'', amount = 7, unlockTime = 100\<rparr>]\<rparr>] = (5, 7)"
proof -
  have u: "unspentOf [''k'']
        [\<lparr>publicSpendKey = ''k'',
          unspentInputs = [\<lparr>keyImage = ''i'', amount = 5, unlockTime = 0\<rparr>,
                           \<lparr>keyImage = ''j'', amount = 7, unlockTime = 100\<rparr>]\<rparr>] =
        [\<lparr>keyImage = ''i'', amount = 5, unlockTime = 0\<rparr>,
         \<lparr>keyImage = ''j'', amount = 7, unlockTime = 100\<rparr>]"
    by (simp add: unspentOf_def)
  have a: "isInputUnlocked 500000000 0 100000 99999"
    using C7_unlock_rule_and_balance [of 500000000 0 100000 99999] by simp
  have b: "\<not> isInputUnlocked 500000000 0 100000 5"
    using C7_unlock_rule_and_balance [of 500000000 0 100000 5] by simp
  have c: "isInputUnlocked 500000000 0 0 9" "\<not> isInputUnlocked 500000000 0 100 9"
    using C7_unlock_rule_and_balance [of 500000000 0 0 9]
          C7_unlock_rule_and_balance [of 500000000 0 100 9] by simp_all
  from C7_unlock_rule_and_balance [of 500000000 0 0 9 "[''k'']"
        "[\<lparr>publicSpendKey = ''k'',
          unspentInputs = [\<lparr>keyImage = ''i'', amount = 5, unlockTime = 0\<rparr>,
                           \<lparr>keyImage = ''j'', amount = 7, unlockTime = 100\<rparr>]\<rparr>]"]
  have "fst (getBalance 500000000 0 9 [''k'']
        [\<lparr>publicSpendKey = ''k'',
          unspentInputs = [\<lparr>keyImage = ''i'', amount = 5, unlockTime = 0\<rparr>,
                           \<lparr>keyImage = ''j'', amount = 7, unlockTime = 100\<rparr>]\<rparr>]) = 5
      \<and> snd (getBalance 500000000 0 9 [''k'']
        [\<lparr>publicSpendKey = ''k'',
          unspentInputs = [\<lparr>keyImage = ''i'', amount = 5, unlockTime = 0\<rparr>,
                           \<lparr>keyImage = ''j'', amount = 7, unlockTime = 100\<rparr>]\<rparr>]) = 7"
    unfolding u using c by simp
  then have "getBalance 500000000 0 9 [''k'']
        [\<lparr>publicSpendKey = ''k'',
          unspentInputs = [\<lparr>keyImage = ''i'', amount = 5, unlockTime = 0\<rparr>,
                           \<lparr>keyImage = ''j'', amount = 7, unlockTime = 100\<rparr>]\<rparr>] = (5, 7)"
    by (simp add: prod_eq_iff)
  with a b show ?thesis by simp
qed

section \<open>Properties of the payment ID validation\<close>

lemma matchesAlnumRun_short: "length s < n \<Longrightarrow> \<not> matchesAlnumRun n s"
  by (induction s) (auto simp add: alnumAt_def)

lemma matchesAlnumRun_exact: "length s = n \<Longrightarrow> matchesAlnumRun n s = list_all isAlnum s"
proof (cases s)
  case Nil
  then show "length s = n \<Longrightarrow> matchesAlnumRun n s = list_all isAlnum s"
    by (simp add: alnumAt_def)
next
  case (Cons c rest)
  assume len: "length s = n"
  then have "length rest < n" using Cons by auto
  then have "\<not> matchesAlnumRun n rest" by (rule matchesAlnumRun_short)
  then show "matchesAlnumRun n s = list_all isAlnum s"
    using Cons len by (auto simp add: alnumAt_def)
qed

lemma validatePaymentID_string:
  "validatePaymentID (JSString p) (JSBoolean allow) =
     Inr (if p = [] \<and> allow then SUCCESS
          else if length p \<noteq> 64 then PAYMENT_ID_WRONG_LENGTH
          else if list_all isAlnum p then SUCCESS
          else PAYMENT_ID_INVALID)"
  by (simp add: validatePaymentID_def assertString_def assertBoolean_def assertType_def
      isString_def isBoolean_def matchesAlnumRun_exact)

lemma validatePaymentID_default:
  "validatePaymentID (JSString p) JSUndefined = validatePaymentID (JSString p) (JSBoolean True)"
  by (simp add: validatePaymentID_def)

text \<open>
  C10. On a string (and a boolean, or the second argument left out) \<open>validatePaymentID\<close>
  does not throw and returns an error code: \<open>SUCCESS\<close> for the empty string when empty
  strings are allowed; \<open>PAYMENT_ID_WRONG_LENGTH\<close> exactly when the string is not so
  exempt and its length is not 64; \<open>SUCCESS\<close> for every string of exactly 64 characters
  of \<open>[a-zA-Z0-9]\<close>, hexadecimal or not.
\<close>

theorem C10_validatePaymentID:
  "(\<exists>code. validatePaymentID (JSString p) (JSBoolean allow) = Inr code)
   \<and> (p = [] \<and> allow \<longrightarrow> validatePaymentID (JSString p) (JSBoolean allow) = Inr SUCCESS)
   \<and> (validatePaymentID (JSString p) (JSBoolean allow) = Inr PAYMENT_ID_WRONG_LENGTH
        \<longleftrightarrow> \<not> (p = [] \<and> allow) \<and> length p \<noteq> 64)
   \<and> (length p = 64 \<and> list_all isAlnum p \<longrightarrow>
        validatePaymentID (JSString p) (JSBoolean allow) = Inr SUCCESS)
   \<and> validatePaymentID (JSString p) JSUndefined = validatePaymentID (JSString p) (JSBoolean True)"
  by (simp add: validatePaymentID_string validatePaymentID_default)

lemma list_all_replicate: "list_all P (replicate n x) = (n = 0 \<or> P x)"
  by (induction n) auto

theorem C10_validatePaymentID_witness:
  "validatePaymentID (JSString (replicate 64 (CHR ''g''))) (JSBoolean False) = Inr SUCCESS
   \<and> \<not> isHex64 (replicate 64 (CHR ''g''))
   \<and> validatePaymentID (JSString []) (JSBoolean True) = Inr SUCCESS"
proof -
  have a: "length (replicate 64 (CHR ''g'')) = 64 \<and> list_all isAlnum (replicate 64 (CHR ''g''))"
    by (simp add: list_all_replicate isAlnum_def)
  have b: "\<not> isHex64 (replicate 64 (CHR ''g''))"
    by (simp add: isHex64_def list_all_replicate isHexDigit_def)
  have c: "([]::string) = [] \<and> True" by simp
  from C10_validatePaymentID [of "replicate 64 (CHR ''g'')" False] a
       C10_validatePaymentID [of "[]" True] b c
  show ?thesis by blast
qed

end
